theory Spec2Isabelle
  imports Main
begin

section \<open>Python values, exceptions and effects\<close>

text \<open>
  The two programs, \<^verbatim>\<open>socket-multiple.py\<close> (LED matrix) and
  \<^verbatim>\<open>socket-multiple-console-ui.py\<close> (console and Tk), share the class
  \<^verbatim>\<open>BinanceSocket\<close>: a dictionary \<^verbatim>\<open>self.data\<close> of the latest ticker per symbol,
  filled by \<^verbatim>\<open>handle_message\<close> from the frames of a websocket, and a rotation of the
  configured symbols driven by a timer. Python strings are modelled as HOL strings, so
  the model speaks about 8-bit characters only.

  A Python float is kept by its exact value: \<open>FFinite s m e\<close> is
  \<open>(-1)\<^sup>s \<cdot> m \<cdot> 2\<^sup>e\<close>.
\<close>

datatype pyfloat = FFinite bool nat int | FInf bool | FNaN

text \<open>
  The values \<^verbatim>\<open>json.loads\<close> returns. A dictionary is the list of its items in
  insertion order; its keys are strings.
\<close>

datatype json =
    JNull
  | JBool bool
  | JInt int
  | JFloat pyfloat
  | JStr string
  | JList "json list"
  | JDict "(string \<times> json) list"

text \<open>
  The exceptions the programs meet. \<open>JSONDecodeError\<close> and the four connection
  errors carry \<^verbatim>\<open>str(e)\<close>, which the programs log; \<open>KeyError\<close> carries the key and
  \<open>SystemExit\<close> the exit status. \<open>TimeoutError\<close> is \<^verbatim>\<open>asyncio.TimeoutError\<close>, and
  \<open>OSError\<close> stands for the operating system's other errors. \<open>ValueError\<close> is the
  plain one: \<^verbatim>\<open>JSONDecodeError\<close> is a subclass of it, but no \<^verbatim>\<open>except\<close> clause of the
  programs names the parent.
\<close>

datatype exn =
    JSONDecodeError string
  | KeyError string
  | TypeError
  | ValueError
  | InvalidOperation
  | OverflowError
  | RecursionError
  | StopIteration
  | ConnectionClosed string
  | TimeoutError string
  | InvalidURI string
  | OSError string
  | SystemExit int

text \<open>
  The dictionary literal that \<^verbatim>\<open>handle_message\<close> stores: five fixed keys. \<open>change\<close> is
  always a string (the result of \<^verbatim>\<open>str.format\<close>); the other four are whatever the
  frame held.
\<close>

record snapshot =
  change :: string
  price :: json
  vol :: json
  symbol :: json
  quote :: json

text \<open>
  What the programs do to the outside world, in order: log lines, the websocket calls,
  \<^verbatim>\<open>asyncio.sleep\<close>, and the record handed to the display.
\<close>

datatype event =
    LogInfo string
  | LogError string
  | Connect string
  | Send string
  | Sleep nat
  | Present snapshot

section \<open>Strings and sequencing\<close>

text \<open>Sequencing of steps that may raise: the first exception ends the computation.\<close>

definition then_do :: "exn + 'a \<Rightarrow> ('a \<Rightarrow> exn + 'b) \<Rightarrow> exn + 'b" where
  "then_do m f = (case m of Inl e \<Rightarrow> Inl e | Inr x \<Rightarrow> f x)"

text \<open>\<^verbatim>\<open>sep.join(xs)\<close>.\<close>

fun join :: "string \<Rightarrow> string list \<Rightarrow> string" where
  "join sep [] = []"
| "join sep [x] = x"
| "join sep (x # y # ys) = x @ sep @ join sep (y # ys)"

text \<open>
  \<^verbatim>\<open>s.replace(old, new)\<close>: the occurrences of \<open>old\<close> are found from the left and do
  not overlap; an empty \<open>old\<close> matches before every character and at the end.
\<close>

function replace :: "string \<Rightarrow> string \<Rightarrow> string \<Rightarrow> string" where
  "replace old new [] = (if old = [] then new else [])"
| "replace old new (c # cs) =
     (if old = [] then new @ c # replace old new cs
      else if take (length old) (c # cs) = old
        then new @ replace old new (drop (length old) (c # cs))
      else c # replace old new cs)"
  by pat_completeness auto
termination
  by (relation "measure (\<lambda>(old, new, s). length s)") auto

text \<open>
  \<^verbatim>\<open>s.upper()\<close> on ASCII letters. Python maps characters beyond ASCII too (some of
  them to characters outside the 8-bit range); the model leaves them alone, and every
  theorem that depends on \<open>upper\<close> is stated for ASCII symbols.
\<close>

definition upper_char :: "char \<Rightarrow> char" where
  "upper_char c =
     (case map_of (zip ''abcdefghijklmnopqrstuvwxyz'' ''ABCDEFGHIJKLMNOPQRSTUVWXYZ'') c of
        Some u \<Rightarrow> u
      | None \<Rightarrow> c)"

definition upper :: "string \<Rightarrow> string" where
  "upper s = map upper_char s"

definition lower_char :: "char \<Rightarrow> char" where
  "lower_char c =
     (case map_of (zip ''ABCDEFGHIJKLMNOPQRSTUVWXYZ'' ''abcdefghijklmnopqrstuvwxyz'') c of
        Some l \<Rightarrow> l
      | None \<Rightarrow> c)"

definition is_ascii :: "string \<Rightarrow> bool" where
  "is_ascii s = list_all (\<lambda>c. (of_char c :: nat) < 128) s"

text \<open>\<^verbatim>\<open>x in s\<close> for two strings: \<open>x\<close> occurs in \<open>s\<close> as a block.\<close>

fun substring :: "string \<Rightarrow> string \<Rightarrow> bool" where
  "substring x [] = (x = [])"
| "substring x (c # cs) = (take (length x) (c # cs) = x \<or> substring x cs)"

text \<open>Decimal digits, and \<^verbatim>\<open>str(n)\<close> for a natural number.\<close>

definition is_digit :: "char \<Rightarrow> bool" where
  "is_digit c = (let n = (of_char c :: nat) in 48 \<le> n \<and> n \<le> 57)"

definition digit_val :: "char \<Rightarrow> nat" where
  "digit_val c = (of_char c :: nat) - 48"

definition digit_char :: "nat \<Rightarrow> char" where
  "digit_char d = ''0123456789'' ! d"

definition nat_of_digits :: "string \<Rightarrow> nat" where
  "nat_of_digits ds = foldl (\<lambda>a c. 10 * a + digit_val c) 0 ds"

fun str_nat :: "nat \<Rightarrow> string" where
  "str_nat n = (if n < 10 then [digit_char n] else str_nat (n div 10) @ [digit_char (n mod 10)])"

declare str_nat.simps [simp del]

section \<open>The decimal module\<close>

text \<open>
  A \<^verbatim>\<open>decimal.Decimal\<close>: sign, coefficient and exponent of a finite number
  (\<open>(-1)\<^sup>s \<cdot> c \<cdot> 10\<^sup>e\<close>), an infinity, or a quiet or signalling NaN with its payload
  (0 for none).
\<close>

datatype decimal =
    DFinite bool nat int
  | DInfinity bool
  | DNaN bool bool nat

text \<open>
  The bounds of the C implementation on a 64-bit machine (the module shows them as
  \<^verbatim>\<open>MAX_PREC\<close>, \<^verbatim>\<open>MAX_EMAX\<close> and \<^verbatim>\<open>MIN_ETINY\<close>): on the number of digits of a
  coefficient, on the exponent of the leading digit, and on the exponent itself.
\<close>

definition MPD_MAX_PREC :: nat where
  "MPD_MAX_PREC = 999999999999999999"

definition MPD_MAX_EMAX :: int where
  "MPD_MAX_EMAX = 999999999999999999"

definition MPD_MIN_ETINY :: int where
  "MPD_MIN_ETINY = - 1999999999999999997"

text \<open>
  The constructor is exact: it gives the finite number asked for when that lies within
  the bounds, and raises \<^verbatim>\<open>InvalidOperation\<close> when it does not. The digits counted are
  those of the coefficient without leading zeros.
\<close>

definition finite_decimal :: "bool \<Rightarrow> nat \<Rightarrow> int \<Rightarrow> exn + decimal" where
  "finite_decimal sg c e =
     (let n = length (str_nat c)
      in if MPD_MAX_PREC < n \<or> MPD_MAX_EMAX < e + int n - 1 \<or> e < MPD_MIN_ETINY
         then Inl InvalidOperation
         else Inr (DFinite sg c e))"

text \<open>The characters \<^verbatim>\<open>str.isspace\<close> accepts among the first 256.\<close>

definition is_space :: "char \<Rightarrow> bool" where
  "is_space c =
     (let n = (of_char c :: nat) in (9 \<le> n \<and> n \<le> 13) \<or> (28 \<le> n \<and> n \<le> 32) \<or> n = 133 \<or> n = 160)"

definition strip :: "string \<Rightarrow> string" where
  "strip s = rev (dropWhile is_space (rev (dropWhile is_space s)))"

text \<open>The exponent part of a numeric string: empty, or \<^verbatim>\<open>e\<close>, a sign, digits.\<close>

definition decimal_exponent :: "string \<Rightarrow> int option" where
  "decimal_exponent s =
     (case s of
        [] \<Rightarrow> Some 0
      | c # r \<Rightarrow>
          if c = CHR ''e'' \<or> c = CHR ''E'' then
            (let (neg, ds) =
               (case r of
                  [] \<Rightarrow> (False, [])
                | d # t \<Rightarrow> if d = CHR ''-'' then (True, t) else if d = CHR ''+'' then (False, t) else (False, r))
             in if ds \<noteq> [] \<and> list_all is_digit ds
                then Some (if neg then - int (nat_of_digits ds) else int (nat_of_digits ds))
                else None)
          else None)"

text \<open>
  The payload of a NaN: digits only, and no more of them than a coefficient may have.
\<close>

definition nan_payload :: "string \<Rightarrow> nat option" where
  "nan_payload ds =
     (if list_all is_digit ds \<and> length (str_nat (nat_of_digits ds)) \<le> MPD_MAX_PREC
      then Some (nat_of_digits ds)
      else None)"

text \<open>
  \<^verbatim>\<open>Decimal(s)\<close> for a string: surrounding whitespace is stripped, underscores are
  dropped, and the rest is an optional sign followed by \<^verbatim>\<open>Inf\<close>, \<^verbatim>\<open>Infinity\<close>,
  \<^verbatim>\<open>NaN\<close> or \<^verbatim>\<open>sNaN\<close> with payload digits (in any case), or digits with an optional
  point and exponent. Anything else is \<^verbatim>\<open>InvalidOperation\<close>, and so is a number
  outside the bounds.
\<close>

definition decimal_of_string :: "string \<Rightarrow> exn + decimal" where
  "decimal_of_string s0 =
     (let s = filter (\<lambda>c. c \<noteq> CHR ''_'') (strip s0);
          (sg, r) =
            (case s of
               [] \<Rightarrow> (False, [])
             | c # t \<Rightarrow> if c = CHR ''-'' then (True, t) else if c = CHR ''+'' then (False, t) else (False, s));
          l = map lower_char r
      in if l = ''inf'' \<or> l = ''infinity'' then Inr (DInfinity sg)
         else if take 3 l = ''nan'' then
           (case nan_payload (drop 3 r) of
              Some p \<Rightarrow> Inr (DNaN sg False p)
            | None \<Rightarrow> Inl InvalidOperation)
         else if take 4 l = ''snan'' then
           (case nan_payload (drop 4 r) of
              Some p \<Rightarrow> Inr (DNaN sg True p)
            | None \<Rightarrow> Inl InvalidOperation)
         else
           (let ip = takeWhile is_digit r;
                r1 = dropWhile is_digit r;
                (fp, r2) =
                  (case r1 of
                     [] \<Rightarrow> ([], [])
                   | c # t \<Rightarrow>
                       if c = CHR ''.'' then (takeWhile is_digit t, dropWhile is_digit t)
                       else ([], r1))
            in if ip = [] \<and> fp = [] then Inl InvalidOperation
               else (case decimal_exponent r2 of
                       None \<Rightarrow> Inl InvalidOperation
                     | Some ex \<Rightarrow>
                         if MPD_MAX_PREC < length fp then Inl InvalidOperation
                         else finite_decimal sg (nat_of_digits (ip @ fp)) (ex - int (length fp)))))"

text \<open>
  \<^verbatim>\<open>Decimal([sign, digits, exponent])\<close>, the form \<^verbatim>\<open>as_tuple\<close> returns, which the
  constructor also takes as lists: the sign is 0 or 1, the digits are integers from 0 to 9,
  the exponent is an integer or one of \<^verbatim>\<open>'F'\<close>, \<^verbatim>\<open>'n'\<close>, \<^verbatim>\<open>'N'\<close>. A \<^verbatim>\<open>bool\<close> counts
  as the integer it is. The three are looked at in the order sign, exponent, digits, and
  an integer that does not fit a 64-bit C integer is \<^verbatim>\<open>OverflowError\<close>.
\<close>

definition int_of_json :: "json \<Rightarrow> int option" where
  "int_of_json v = (case v of JInt n \<Rightarrow> Some n | JBool b \<Rightarrow> Some (if b then 1 else 0) | _ \<Rightarrow> None)"

definition c_long :: "json \<Rightarrow> exn + int" where
  "c_long v =
     (case int_of_json v of
        None \<Rightarrow> Inl ValueError
      | Some n \<Rightarrow> if n < - (2 ^ 63) \<or> 2 ^ 63 \<le> n then Inl OverflowError else Inr n)"

fun digits_value :: "nat \<Rightarrow> json list \<Rightarrow> exn + nat" where
  "digits_value a [] = Inr a"
| "digits_value a (d # ds) =
     (case c_long d of
        Inl e \<Rightarrow> Inl e
      | Inr n \<Rightarrow> if 0 \<le> n \<and> n \<le> 9 then digits_value (10 * a + nat n) ds else Inl ValueError)"

definition digits_of_json :: "json \<Rightarrow> exn + nat" where
  "digits_of_json v = (case v of JList ds \<Rightarrow> digits_value 0 ds | _ \<Rightarrow> Inl ValueError)"

definition decimal_of_list :: "json list \<Rightarrow> exn + decimal" where
  "decimal_of_list xs =
     (case xs of
        [s, ds, ex] \<Rightarrow>
          then_do (c_long s) (\<lambda>sg.
            if sg \<noteq> 0 \<and> sg \<noteq> 1 then Inl ValueError
            else
              (case ex of
                 JStr t \<Rightarrow>
                   if t = ''F'' then
                     then_do (digits_of_json ds) (\<lambda>c. Inr (DInfinity (sg = 1)))
                   else if t = ''n'' \<or> t = ''N'' then
                     then_do (digits_of_json ds) (\<lambda>c.
                       if length (str_nat c) \<le> MPD_MAX_PREC
                       then Inr (DNaN (sg = 1) (t = ''N'') c)
                       else Inl InvalidOperation)
                   else Inl ValueError
               | _ \<Rightarrow>
                   then_do (c_long ex) (\<lambda>e.
                   then_do (digits_of_json ds) (\<lambda>c. finite_decimal (sg = 1) c e))))
      | _ \<Rightarrow> Inl ValueError)"

text \<open>
  \<^verbatim>\<open>Decimal(x)\<close> for a decoded value. A float is converted exactly; the pair of
  coefficient and exponent chosen here denotes the float's value (Python reduces it
  further, which no operation of the programs can tell).
\<close>

definition Decimal :: "json \<Rightarrow> exn + decimal" where
  "Decimal v =
     (case v of
        JStr s \<Rightarrow> decimal_of_string s
      | JInt n \<Rightarrow> finite_decimal (n < 0) (nat \<bar>n\<bar>) 0
      | JBool b \<Rightarrow> Inr (DFinite False (if b then 1 else 0) 0)
      | JFloat (FFinite s m e) \<Rightarrow>
          Inr (if 0 \<le> e then DFinite s (m * 2 ^ nat e) 0 else DFinite s (m * 5 ^ nat (- e)) e)
      | JFloat (FInf s) \<Rightarrow> Inr (DInfinity s)
      | JFloat FNaN \<Rightarrow> Inr (DNaN False False 0)
      | JList xs \<Rightarrow> decimal_of_list xs
      | JNull \<Rightarrow> Inl TypeError
      | JDict _ \<Rightarrow> Inl TypeError)"

text \<open>The nearest integer to \<open>a / b\<close>, a tie going to the even one.\<close>

definition round_half_even :: "nat \<Rightarrow> nat \<Rightarrow> nat" where
  "round_half_even a b =
     (let q = a div b; r = a mod b
      in if b < 2 * r \<or> (2 * r = b \<and> odd q) then q + 1 else q)"

text \<open>
  The coefficient of a finite decimal brought to exponent \<open>-4\<close>, rounding half to even
  (the default context's rounding, which \<^verbatim>\<open>Decimal.__format__\<close> uses). Zero stays
  zero whatever its exponent, and a coefficient that loses more digits than it has
  becomes zero.
\<close>

definition rescale4 :: "nat \<Rightarrow> int \<Rightarrow> nat" where
  "rescale4 c e =
     (if c = 0 then 0
      else if - 4 \<le> e then c * 10 ^ nat (e + 4)
      else if length (str_nat c) < nat (- 4 - e) then 0
      else round_half_even c (10 ^ nat (- 4 - e)))"

text \<open>
  \<^verbatim>\<open>'{0:.4f}'.format(d)\<close>: a special value prints as its name, a finite one as its sign,
  the integer digits, a point and exactly four fraction digits. A number other than
  zero whose digits, brought to exponent \<open>-4\<close>, would be more than \<open>MPD_MAX_PREC + 1\<close>
  raises \<^verbatim>\<open>ValueError\<close>. (Well below that bound the machine runs out of memory for the
  text and Python raises \<^verbatim>\<open>MemoryError\<close>; the model has no bound on memory.)
\<close>

definition format_4f :: "decimal \<Rightarrow> exn + string" where
  "format_4f d =
     (case d of
        DInfinity s \<Rightarrow> Inr ((if s then ''-'' else '''') @ ''Infinity'')
      | DNaN s sig p \<Rightarrow>
          Inr ((if s then ''-'' else '''') @ (if sig then ''sNaN'' else ''NaN'') @
               (if p = 0 then '''' else str_nat p))
      | DFinite s c e \<Rightarrow>
          if c \<noteq> 0 \<and> - 4 \<le> e \<and> MPD_MAX_PREC + 1 < length (str_nat c) + nat (e + 4)
          then Inl ValueError
          else
            (let ds = str_nat (rescale4 c e);
                 n = length ds;
                 intpart = (if n \<le> 4 then ''0'' else take (n - 4) ds);
                 fracpart = (if n < 4 then replicate (4 - n) (CHR ''0'') @ ds else drop (n - 4) ds)
             in Inr ((if s then ''-'' else '''') @ intpart @ ''.'' @ fracpart)))"

section \<open>Dictionaries and \<^verbatim>\<open>itertools.cycle\<close>\<close>

text \<open>
  Python's \<^verbatim>\<open>==\<close> on the values that can be dictionary keys: strings by their text,
  numbers (a \<^verbatim>\<open>bool\<close> is a number) by their exact value, a NaN equal to nothing.
  A number is compared as \<open>z \<cdot> 2\<^sup>e\<close>.
\<close>

definition num_of_json :: "json \<Rightarrow> (int \<times> int) option" where
  "num_of_json v =
     (case v of
        JBool b \<Rightarrow> Some (if b then 1 else 0, 0)
      | JInt n \<Rightarrow> Some (n, 0)
      | JFloat (FFinite s m e) \<Rightarrow> Some (if s then - int m else int m, e)
      | _ \<Rightarrow> None)"

definition dyadic_eq :: "int \<times> int \<Rightarrow> int \<times> int \<Rightarrow> bool" where
  "dyadic_eq a b =
     (let e = min (snd a) (snd b)
      in fst a * 2 ^ nat (snd a - e) = fst b * 2 ^ nat (snd b - e))"

fun py_eq :: "json \<Rightarrow> json \<Rightarrow> bool" where
  "py_eq (JStr s) (JStr t) = (s = t)"
| "py_eq JNull JNull = True"
| "py_eq (JFloat (FInf s)) (JFloat (FInf t)) = (s = t)"
| "py_eq a b =
     (case (num_of_json a, num_of_json b) of
        (Some x, Some y) \<Rightarrow> dyadic_eq x y
      | _ \<Rightarrow> False)"

text \<open>Lists and dictionaries are unhashable: using one as a key raises \<^verbatim>\<open>TypeError\<close>.\<close>

fun hashable :: "json \<Rightarrow> bool" where
  "hashable (JList _) = False"
| "hashable (JDict _) = False"
| "hashable _ = True"

text \<open>
  A dictionary takes two keys for the same when they are the same object or equal. The
  only value here that is not equal to itself is NaN, and every NaN that \<^verbatim>\<open>json.loads\<close>
  returns is the one object \<^verbatim>\<open>json.decoder.NaN\<close>.
\<close>

definition same_key :: "json \<Rightarrow> json \<Rightarrow> bool" where
  "same_key a b = ((a = JFloat FNaN \<and> b = JFloat FNaN) \<or> py_eq a b)"

text \<open>
  \<^verbatim>\<open>self.data\<close>: the items in insertion order. Storing under a key that is present
  replaces the value and keeps the old key.
\<close>

fun dict_get :: "(json \<times> 'v) list \<Rightarrow> json \<Rightarrow> 'v option" where
  "dict_get [] k = None"
| "dict_get ((k', v) # r) k = (if same_key k' k then Some v else dict_get r k)"

fun dict_set :: "(json \<times> 'v) list \<Rightarrow> json \<Rightarrow> 'v \<Rightarrow> (json \<times> 'v) list" where
  "dict_set [] k v = [(k, v)]"
| "dict_set ((k', v') # r) k v = (if same_key k' k then (k', v) # r else (k', v') # dict_set r k v)"

definition setitem :: "(json \<times> 'v) list \<Rightarrow> json \<Rightarrow> 'v \<Rightarrow> exn + (json \<times> 'v) list" where
  "setitem d k v = (if hashable k then Inr (dict_set d k v) else Inl TypeError)"

text \<open>\<^verbatim>\<open>x in data\<close> and \<^verbatim>\<open>data[k]\<close> for a string and a decoded value.\<close>

definition py_in :: "string \<Rightarrow> json \<Rightarrow> exn + bool" where
  "py_in x v =
     (case v of
        JDict kvs \<Rightarrow> Inr (x \<in> set (map fst kvs))
      | JList xs \<Rightarrow> Inr (JStr x \<in> set xs)
      | JStr s \<Rightarrow> Inr (substring x s)
      | _ \<Rightarrow> Inl TypeError)"

definition getitem :: "json \<Rightarrow> string \<Rightarrow> exn + json" where
  "getitem v k =
     (case v of
        JDict kvs \<Rightarrow> (case map_of kvs k of None \<Rightarrow> Inl (KeyError k) | Some x \<Rightarrow> Inr x)
      | _ \<Rightarrow> Inl TypeError)"

text \<open>
  \<^verbatim>\<open>itertools.cycle(xs)\<close>: the iterator first hands out the items of \<open>xs\<close>, saving each,
  then goes round the saved list for ever. \<open>pending\<close> is what the first pass has left
  (\<open>None\<close> once it is over), \<open>index\<close> the place in the saved list.
\<close>

record 'a cycle =
  pending :: "'a list option"
  saved :: "'a list"
  index :: nat

definition cycle :: "'a list \<Rightarrow> 'a cycle" where
  "cycle xs = \<lparr>pending = Some xs, saved = [], index = 0\<rparr>"

definition cycle_next :: "'a cycle \<Rightarrow> exn + ('a \<times> 'a cycle)" where
  "cycle_next c =
     (case pending c of
        Some (x # r) \<Rightarrow> Inr (x, c\<lparr>pending := Some r, saved := saved c @ [x]\<rparr>)
      | _ \<Rightarrow>
          if saved c = [] then Inl StopIteration
          else Inr (saved c ! index c,
                    c\<lparr>pending := None,
                      index := (if length (saved c) \<le> Suc (index c) then 0 else Suc (index c))\<rparr>))"

section \<open>The class \<^verbatim>\<open>BinanceSocket\<close>\<close>

text \<open>
  The fields both programs set in \<^verbatim>\<open>__init__\<close>, and \<open>out\<close>: the effects the object has
  had so far, oldest first. Fonts, canvas and widgets belong to the display and are left
  out.
\<close>

record binance_socket =
  symbols :: "string list"
  refresh :: int
  data :: "(json \<times> snapshot) list"
  ctr :: int
  cycle_symbols :: "string cycle"
  current_symbol :: string
  out :: "event list"

text \<open>\<^verbatim>\<open>s.split(c)\<close> for a one-character separator.\<close>

fun split_on :: "char \<Rightarrow> string \<Rightarrow> string list" where
  "split_on sep [] = [[]]"
| "split_on sep (c # cs) =
     (if c = sep then [] # split_on sep cs
      else (case split_on sep cs of [] \<Rightarrow> [[c]] | x # xs \<Rightarrow> (c # x) # xs))"

text \<open>
  \<^verbatim>\<open>__init__\<close>, given the value of \<^verbatim>\<open>SYMBOLS\<close> (empty when unset) and the integer
  read from \<^verbatim>\<open>TOGGLE_RATE\<close>.
\<close>

definition init :: "string \<Rightarrow> int \<Rightarrow> exn + binance_socket" where
  "init symbols_env toggle_rate =
     (let syms = split_on (CHR '','') symbols_env
      in if syms = [] \<or> syms = [''''] then Inl ValueError
         else if toggle_rate \<le> 0 then Inl ValueError
         else
           (case cycle_next (cycle syms) of
              Inl e \<Rightarrow> Inl e
            | Inr (x, c) \<Rightarrow>
                Inr \<lparr>symbols = syms, refresh = toggle_rate, data = [], ctr = 0,
                     cycle_symbols = c, current_symbol = x, out = []\<rparr>))"

definition get_pairs_payload :: "binance_socket \<Rightarrow> string" where
  \<open>get_pairs_payload self =
     (let syms = map (\<lambda>name. ''"'' @ replace ''-'' '''' name @ ''@ticker"'') (symbols self);
          str_symbols = join '','' syms
      in ''{"method": "SUBSCRIBE", "params": ['' @ str_symbols @ ''], "id": 1}'')\<close>

text \<open>
  The dictionary literal of \<^verbatim>\<open>handle_message\<close>. Its values are evaluated in the order
  written: \<^verbatim>\<open>data['P']\<close> (converted, then formatted), \<^verbatim>\<open>data['c']\<close>, \<^verbatim>\<open>data['v']\<close>,
  \<^verbatim>\<open>data['s']\<close>, \<^verbatim>\<open>data['q']\<close>; the first that fails raises.
\<close>

definition ticker_record :: "json \<Rightarrow> exn + snapshot" where
  "ticker_record d =
     then_do (getitem d ''P'') (\<lambda>p.
     then_do (Decimal p) (\<lambda>dec.
     then_do (format_4f dec) (\<lambda>shown.
     then_do (getitem d ''c'') (\<lambda>c.
     then_do (getitem d ''v'') (\<lambda>v.
     then_do (getitem d ''s'') (\<lambda>s.
     then_do (getitem d ''q'') (\<lambda>q.
       Inr \<lparr>change = shown, price = c, vol = v, symbol = s, quote = q\<rparr>)))))))"

text \<open>
  \<^verbatim>\<open>handle_message\<close>, the same in both programs. \<open>loads\<close> is \<^verbatim>\<open>json.loads\<close>. The
  result is the exception that leaves the method, if any, and the object afterwards. In
  the assignment \<^verbatim>\<open>self.data[data['s']] = {...}\<close> Python evaluates the right-hand side
  first, then the key, then stores. Only \<^verbatim>\<open>JSONDecodeError\<close> is caught.
\<close>

definition handle_message ::
  "(string \<Rightarrow> exn + json) \<Rightarrow> string \<Rightarrow> binance_socket \<Rightarrow> exn option \<times> binance_socket" where
  "handle_message loads message self =
     (case loads message of
        Inl (JSONDecodeError e) \<Rightarrow>
          (None, self\<lparr>out := out self @ [LogError (''Error decoding message: '' @ e)]\<rparr>)
      | Inl e \<Rightarrow> (Some e, self)
      | Inr d \<Rightarrow>
          (case py_in ''id'' d of
             Inl e \<Rightarrow> (Some e, self)
           | Inr True \<Rightarrow> (None, self)
           | Inr False \<Rightarrow>
               (case ticker_record d of
                  Inl e \<Rightarrow> (Some e, self)
                | Inr snap \<Rightarrow>
                    (case getitem d ''s'' of
                       Inl e \<Rightarrow> (Some e, self)
                     | Inr k \<Rightarrow>
                         (case setitem (data self) k snap of
                            Inl e \<Rightarrow> (Some e, self)
                          | Inr data' \<Rightarrow> (None, self\<lparr>data := data'\<rparr>))))))"

text \<open>
  The first lines of \<^verbatim>\<open>render_ticker_canvas(symbol)\<close>, \<^verbatim>\<open>update_console\<close> and
  \<^verbatim>\<open>update_ui\<close>: the key is the symbol without hyphens, in upper case; the record they go
  on to draw is the one stored under it, and they return early (\<open>None\<close>) when there is
  none.
\<close>

definition displayed :: "string \<Rightarrow> binance_socket \<Rightarrow> snapshot option" where
  "displayed name self = dict_get (data self) (JStr (upper (replace ''-'' '''' name)))"

definition update_console :: "binance_socket \<Rightarrow> binance_socket" where
  "update_console self =
     (case displayed (current_symbol self) self of
        None \<Rightarrow> self
      | Some d \<Rightarrow> self\<lparr>out := out self @ [Present d]\<rparr>)"

text \<open>\<^verbatim>\<open>toggle_symbol\<close>, the same in both programs; a timer calls it.\<close>

definition toggle_symbol :: "binance_socket \<Rightarrow> exn option \<times> binance_socket" where
  "toggle_symbol self =
     (case cycle_next (cycle_symbols self) of
        Inl e \<Rightarrow> (Some e, self)
      | Inr (x, c) \<Rightarrow>
          (None, self\<lparr>cycle_symbols := c, current_symbol := x, ctr := 0,
                     out := out self @ [LogInfo (''Switched to symbol: '' @ x)]\<rparr>))"

section \<open>The websocket sessions\<close>

text \<open>
  One session as the program meets it: \<^verbatim>\<open>websockets.connect\<close> raises, or
  \<^verbatim>\<open>sock.send\<close> raises, or the iteration over the socket yields frames and then ends,
  silently (the peer closed the connection normally) or with an exception.
\<close>

datatype session =
    ConnectFails exn
  | SendFails exn
  | Receives "string list" "exn option"

text \<open>How \<^verbatim>\<open>fetch_ticker_data\<close> stands when the sessions given to it are used up.\<close>

datatype outcome = Pending | Returned | Raised exn

definition endpoint :: "binance_socket \<Rightarrow> string" where
  "endpoint self =
     ''wss://stream.binance.com:9443/ws/'' @ replace ''-'' '''' (current_symbol self) @ ''@ticker''"

definition exn_text :: "exn \<Rightarrow> string" where
  "exn_text e =
     (case e of
        JSONDecodeError m \<Rightarrow> m
      | ConnectionClosed m \<Rightarrow> m
      | TimeoutError m \<Rightarrow> m
      | InvalidURI m \<Rightarrow> m
      | OSError m \<Rightarrow> m
      | _ \<Rightarrow> [])"

subsection \<open>\<^verbatim>\<open>socket-multiple.py\<close>\<close>

text \<open>\<^verbatim>\<open>async for message in sock: self.handle_message(message)\<close>.\<close>

fun receive ::
  "(string \<Rightarrow> exn + json) \<Rightarrow> string list \<Rightarrow> binance_socket \<Rightarrow> exn option \<times> binance_socket" where
  "receive loads [] self = (None, self)"
| "receive loads (m # ms) self =
     (case handle_message loads m self of
        (Some e, self') \<Rightarrow> (Some e, self')
      | (None, self') \<Rightarrow> receive loads ms self')"

text \<open>The body of the \<^verbatim>\<open>try\<close>: connect, log, subscribe, receive.\<close>

fun session_body ::
  "(string \<Rightarrow> exn + json) \<Rightarrow> session \<Rightarrow> binance_socket \<Rightarrow> exn option \<times> binance_socket" where
  "session_body loads (ConnectFails e) self =
     (Some e, self\<lparr>out := out self @ [Connect (endpoint self)]\<rparr>)"
| "session_body loads (SendFails e) self =
     (Some e, self\<lparr>out := out self @
        [Connect (endpoint self),
         LogInfo (''Subscribing with payload: '' @ get_pairs_payload self)]\<rparr>)"
| "session_body loads (Receives ms closing) self =
     (case receive loads ms
             (self\<lparr>out := out self @
                [Connect (endpoint self),
                 LogInfo (''Subscribing with payload: '' @ get_pairs_payload self),
                 Send (get_pairs_payload self)]\<rparr>) of
        (Some e, self') \<Rightarrow> (Some e, self')
      | (None, self') \<Rightarrow> (closing, self'))"

text \<open>The exceptions the \<^verbatim>\<open>except\<close> clause of \<^verbatim>\<open>socket-multiple.py\<close> names.\<close>

definition retried :: "exn \<Rightarrow> bool" where
  "retried e = (case e of ConnectionClosed _ \<Rightarrow> True | TimeoutError _ \<Rightarrow> True | _ \<Rightarrow> False)"

text \<open>
  \<^verbatim>\<open>fetch_ticker_data\<close> of \<^verbatim>\<open>socket-multiple.py\<close>: a \<^verbatim>\<open>while True\<close> around the
  \<^verbatim>\<open>try\<close>. The sessions are what the network does, one per turn of the loop; when
  they are used up the loop is still running (\<open>Pending\<close>).
\<close>

fun fetch_ticker_data ::
  "(string \<Rightarrow> exn + json) \<Rightarrow> session list \<Rightarrow> binance_socket \<Rightarrow> outcome \<times> binance_socket" where
  "fetch_ticker_data loads [] self = (Pending, self)"
| "fetch_ticker_data loads (s # ss) self =
     (case session_body loads s self of
        (None, self') \<Rightarrow> fetch_ticker_data loads ss self'
      | (Some e, self') \<Rightarrow>
          if retried e then
            fetch_ticker_data loads ss
              (self'\<lparr>out := out self' @
                 [LogError (''WebSocket connection error: '' @ exn_text e @ ''. Retrying in 5 seconds...''),
                  Sleep 5]\<rparr>)
          else (Raised e, self'))"

subsection \<open>\<^verbatim>\<open>socket-multiple-console-ui.py\<close>\<close>

text \<open>Here every frame is followed by a redraw (\<^verbatim>\<open>update_ui\<close> or \<^verbatim>\<open>update_console\<close>).\<close>

fun receive_console ::
  "(string \<Rightarrow> exn + json) \<Rightarrow> string list \<Rightarrow> binance_socket \<Rightarrow> exn option \<times> binance_socket" where
  "receive_console loads [] self = (None, self)"
| "receive_console loads (m # ms) self =
     (case handle_message loads m self of
        (Some e, self') \<Rightarrow> (Some e, self')
      | (None, self') \<Rightarrow> receive_console loads ms (update_console self'))"

fun session_body_console ::
  "(string \<Rightarrow> exn + json) \<Rightarrow> session \<Rightarrow> binance_socket \<Rightarrow> exn option \<times> binance_socket" where
  "session_body_console loads (ConnectFails e) self =
     (Some e, self\<lparr>out := out self @ [Connect (endpoint self)]\<rparr>)"
| "session_body_console loads (SendFails e) self =
     (Some e, self\<lparr>out := out self @
        [Connect (endpoint self),
         LogInfo (''Subscribing with payload: '' @ get_pairs_payload self)]\<rparr>)"
| "session_body_console loads (Receives ms closing) self =
     (case receive_console loads ms
             (self\<lparr>out := out self @
                [Connect (endpoint self),
                 LogInfo (''Subscribing with payload: '' @ get_pairs_payload self),
                 Send (get_pairs_payload self)]\<rparr>) of
        (Some e, self') \<Rightarrow> (Some e, self')
      | (None, self') \<Rightarrow> (closing, self'))"

text \<open>The exceptions the \<^verbatim>\<open>except\<close> clause of the console program names.\<close>

definition fatal_console :: "exn \<Rightarrow> bool" where
  "fatal_console e =
     (case e of
        ConnectionClosed _ \<Rightarrow> True
      | TimeoutError _ \<Rightarrow> True
      | InvalidURI _ \<Rightarrow> True
      | OSError _ \<Rightarrow> True
      | _ \<Rightarrow> False)"

text \<open>
  \<^verbatim>\<open>fetch_ticker_data\<close> of the console program: one session, no loop; a named exception
  is logged and turned into \<^verbatim>\<open>sys.exit(1)\<close>.
\<close>

definition fetch_ticker_data_console ::
  "(string \<Rightarrow> exn + json) \<Rightarrow> session \<Rightarrow> binance_socket \<Rightarrow> outcome \<times> binance_socket" where
  "fetch_ticker_data_console loads s self =
     (case session_body_console loads s self of
        (None, self') \<Rightarrow> (Returned, self')
      | (Some e, self') \<Rightarrow>
          if fatal_console e then
            (Raised (SystemExit 1),
             self'\<lparr>out := out self' @
               [LogError (''WebSocket connection error: '' @ exn_text e @ ''. Unable to connect. Exiting...'')]\<rparr>)
          else (Raised e, self'))"

section \<open>A decoder for JSON texts\<close>

text \<open>
  The programs call \<^verbatim>\<open>json.loads\<close>, which is the library's. \<open>handle_message\<close> above
  takes the decoder as a parameter, so what is proved about it holds for any decoder.
  \<open>json_loads\<close> below follows the library's scanner (CPython 3.11 and later) on 8-bit
  texts and is what the concrete examples are run with: the same values, the same
  exceptions, error texts and positions. A \<^verbatim>\<open>\uXXXX\<close> escape above \<^verbatim>\<open>00FF\<close> names a
  character that HOL's \<open>char\<close> cannot hold (it is kept modulo 256).

  Two limits of the interpreter make the decoder raise something that is not a
  \<^verbatim>\<open>JSONDecodeError\<close>. An integer literal of more than
  \<^verbatim>\<open>sys.get_int_max_str_digits()\<close> digits, 4300 unless changed, is the plain
  \<^verbatim>\<open>ValueError\<close> of \<^verbatim>\<open>int\<close>. A list or object that is opened when the recursion limit
  leaves no room for it is \<^verbatim>\<open>RecursionError\<close>. How much room there is depends on the
  interpreter and on the calls already on the stack, so the number of containers that
  may be open at once is a parameter of \<open>json_decode\<close>; \<open>json_loads\<close> takes
  \<^verbatim>\<open>sys.getrecursionlimit()\<close>, 1000 unless changed, as if the stack were empty. (Within
  a few levels of the limit CPython 3.11 also raises \<^verbatim>\<open>RecursionError\<close> where it would
  have to build a \<^verbatim>\<open>JSONDecodeError\<close> inside the nesting.)
\<close>

definition int_max_str_digits :: nat where
  "int_max_str_digits = 4300"

definition recursion_limit :: nat where
  "recursion_limit = 1000"

fun bit_length :: "nat \<Rightarrow> nat" where
  "bit_length n = (if n = 0 then 0 else Suc (bit_length (n div 2)))"

declare bit_length.simps [simp del]

text \<open>
  \<^verbatim>\<open>float(text)\<close> for the decimal numeral \<open>(-1)\<^sup>s \<cdot> n \<cdot> 10\<^sup>k\<close>: the nearest IEEE 754
  double, ties to even, with 53 bits above \<open>2\<^sup>-\<^sup>1\<^sup>0\<^sup>7\<^sup>4\<close> and infinity from \<open>2\<^sup>1\<^sup>0\<^sup>2\<^sup>4\<close> on.
\<close>

definition float_of_decimal :: "bool \<Rightarrow> nat \<Rightarrow> int \<Rightarrow> pyfloat" where
  "float_of_decimal s n k =
     (if n = 0 then FFinite s 0 0
      else
        (let num = (if 0 \<le> k then n * 10 ^ nat k else n);
             den = (if 0 \<le> k then 1 else 10 ^ nat (- k));
             e0 = int (bit_length num) - int (bit_length den);
             e = (if (if 0 \<le> e0 then den * 2 ^ nat e0 \<le> num else den \<le> num * 2 ^ nat (- e0))
                  then e0 else e0 - 1);
             se = max (e - 52) (- 1074);
             m = (if 0 \<le> se then round_half_even num (den * 2 ^ nat se)
                  else round_half_even (num * 2 ^ nat (- se)) den)
         in if 1025 \<le> int (bit_length m) + se then FInf s else FFinite s m se))"

text \<open>
  A number at the head of the text, as the scanner's pattern
  \<^verbatim>\<open>(-?(?:0|[1-9]\d*))(\.\d+)?([eE][-+]?\d+)?\<close> matches it, with the count of characters
  matched: an \<^verbatim>\<open>int\<close> when there is neither fraction nor exponent, a \<^verbatim>\<open>float\<close>
  otherwise. The conversion of an \<^verbatim>\<open>int\<close> with too many digits raises.
\<close>

definition scan_exponent :: "string \<Rightarrow> (int \<times> nat) option" where
  "scan_exponent s =
     (case s of
        [] \<Rightarrow> None
      | c # r \<Rightarrow>
          if c = CHR ''e'' \<or> c = CHR ''E'' then
            (let (neg, signed, t) =
               (case r of
                  [] \<Rightarrow> (False, False, [])
                | d # u \<Rightarrow>
                    if d = CHR ''-'' then (True, True, u)
                    else if d = CHR ''+'' then (False, True, u)
                    else (False, False, r));
                 ds = takeWhile is_digit t
             in if ds = [] then None
                else Some (if neg then - int (nat_of_digits ds) else int (nat_of_digits ds),
                           (if signed then 2 else 1) + length ds))
          else None)"

definition scan_number :: "string \<Rightarrow> ((exn + json) \<times> nat) option" where
  "scan_number s =
     (let (neg, r0) =
            (case s of
               [] \<Rightarrow> (False, [])
             | c # t \<Rightarrow> if c = CHR ''-'' then (True, t) else (False, s));
          ip = (case r0 of
                  [] \<Rightarrow> []
                | c # t \<Rightarrow> if c = CHR ''0'' then [c] else takeWhile is_digit r0)
      in if ip = [] then None
         else
           (let r1 = drop (length ip) r0;
                fp = (case r1 of
                        [] \<Rightarrow> []
                      | c # t \<Rightarrow> if c = CHR ''.'' then takeWhile is_digit t else []);
                r2 = (if fp = [] then r1 else drop (Suc (length fp)) r1);
                n0 = (if neg then 1 else 0) + length ip + (if fp = [] then 0 else Suc (length fp))
            in case scan_exponent r2 of
                 None \<Rightarrow>
                   if fp = [] then
                     Some (if int_max_str_digits < length ip then Inl ValueError
                           else Inr (JInt (if neg then - int (nat_of_digits ip) else int (nat_of_digits ip))),
                           n0)
                   else
                     Some (Inr (JFloat (float_of_decimal neg (nat_of_digits (ip @ fp)) (- int (length fp)))),
                           n0)
               | Some (ex, n1) \<Rightarrow>
                   Some (Inr (JFloat (float_of_decimal neg (nat_of_digits (ip @ fp)) (ex - int (length fp)))),
                         n0 + n1)))"

text \<open>The escapes of a JSON string.\<close>

definition hex_val :: "char \<Rightarrow> nat option" where
  "hex_val c =
     (let n = (of_char c :: nat)
      in if 48 \<le> n \<and> n \<le> 57 then Some (n - 48)
         else if 97 \<le> n \<and> n \<le> 102 then Some (n - 87)
         else if 65 \<le> n \<and> n \<le> 70 then Some (n - 55)
         else None)"

definition hex4 :: "string \<Rightarrow> nat option" where
  "hex4 s =
     (case s of
        [a, b, c, d] \<Rightarrow>
          (case (hex_val a, hex_val b, hex_val c, hex_val d) of
             (Some x, Some y, Some z, Some w) \<Rightarrow> Some (((x * 16 + y) * 16 + z) * 16 + w)
           | _ \<Rightarrow> None)
      | _ \<Rightarrow> None)"

definition escape_char :: "char \<Rightarrow> char option" where
  "escape_char e =
     (if e = CHR 0x22 then Some (CHR 0x22)
      else if e = CHR 0x5C then Some (CHR 0x5C)
      else if e = CHR ''/'' then Some (CHR ''/'')
      else if e = CHR ''b'' then Some (CHR 0x08)
      else if e = CHR ''f'' then Some (CHR 0x0C)
      else if e = CHR ''n'' then Some (CHR 0x0A)
      else if e = CHR ''r'' then Some (CHR 0x0D)
      else if e = CHR ''t'' then Some (CHR 0x09)
      else None)"

text \<open>
  The string that starts with the quote at \<open>begin\<close>; \<open>pos\<close> is where the text still to
  read starts, \<open>acc\<close> holds the characters read so far, last first. The result is the
  string and the position after its closing quote, or an error text and its position.
\<close>

fun scan_string :: "nat \<Rightarrow> nat \<Rightarrow> string \<Rightarrow> string \<Rightarrow> (string \<times> nat) + (string \<times> nat)" where
  "scan_string begin pos acc [] = Inl (''Unterminated string starting at'', begin)"
| "scan_string begin pos acc (c # r) =
     (if c = CHR 0x22 then Inr (rev acc, Suc pos)
      else if c = CHR 0x5C then
        (case r of
           [] \<Rightarrow> Inl (''Unterminated string starting at'', begin)
         | e # r' \<Rightarrow>
             if e = CHR ''u'' then
               (case hex4 (take 4 r') of
                  None \<Rightarrow> Inl (''Invalid '' @ [CHR 0x5C] @ ''uXXXX escape'', Suc pos)
                | Some u \<Rightarrow>
                    if 0xD800 \<le> u \<and> u \<le> 0xDBFF \<and> take 2 (drop 4 r') = [CHR 0x5C, CHR ''u''] then
                      (case hex4 (take 4 (drop 6 r')) of
                         None \<Rightarrow> Inl (''Invalid '' @ [CHR 0x5C] @ ''uXXXX escape'', pos + 7)
                       | Some u2 \<Rightarrow>
                           if 0xDC00 \<le> u2 \<and> u2 \<le> 0xDFFF then
                             scan_string begin (pos + 12)
                               (char_of (0x10000 + (u - 0xD800) * 1024 + (u2 - 0xDC00)) # acc)
                               (drop 10 r')
                           else scan_string begin (pos + 6) (char_of u # acc) (drop 4 r'))
                    else scan_string begin (pos + 6) (char_of u # acc) (drop 4 r'))
             else
               (case escape_char e of
                  None \<Rightarrow> Inl (''Invalid '' @ [CHR 0x5C] @ ''escape'', pos)
                | Some ch \<Rightarrow> scan_string begin (pos + 2) (ch # acc) r'))
      else if (of_char c :: nat) < 32 then Inl (''Invalid control character at'', pos)
      else scan_string begin (Suc pos) (c # acc) r)"

text \<open>
  The text cut into tokens, each with the position where it starts. White space
  separates tokens everywhere. The list ends with \<open>TEnd\<close>, or with the token that cannot
  be read: the decoder raises at that token at the latest. \<open>TRaises\<close> is a number whose
  conversion raises, which happens when the decoder wants a value there.
\<close>

datatype token =
    TLBrace | TRBrace | TLBrack | TRBrack | TColon | TComma
  | TScalar json
  | TBadString string nat
  | TRaises exn
  | TBad
  | TEnd

definition is_json_space :: "char \<Rightarrow> bool" where
  "is_json_space c = (c = CHR '' '' \<or> c = CHR 0x09 \<or> c = CHR 0x0A \<or> c = CHR 0x0D)"

fun lex :: "nat \<Rightarrow> string \<Rightarrow> (token \<times> nat) list" where
  "lex pos [] = [(TEnd, pos)]"
| "lex pos (c # r) =
     (if is_json_space c then lex (Suc pos) r
      else if c = CHR ''{'' then (TLBrace, pos) # lex (Suc pos) r
      else if c = CHR ''}'' then (TRBrace, pos) # lex (Suc pos) r
      else if c = CHR ''['' then (TLBrack, pos) # lex (Suc pos) r
      else if c = CHR '']'' then (TRBrack, pos) # lex (Suc pos) r
      else if c = CHR '':'' then (TColon, pos) # lex (Suc pos) r
      else if c = CHR '','' then (TComma, pos) # lex (Suc pos) r
      else if c = CHR 0x22 then
        (case scan_string pos (Suc pos) [] r of
           Inl (msg, p) \<Rightarrow> [(TBadString msg p, pos)]
         | Inr (str, p) \<Rightarrow> (TScalar (JStr str), pos) # lex p (drop (p - Suc pos) r))
      else if take 4 (c # r) = ''null'' then (TScalar JNull, pos) # lex (pos + 4) (drop 3 r)
      else if take 4 (c # r) = ''true'' then (TScalar (JBool True), pos) # lex (pos + 4) (drop 3 r)
      else if take 5 (c # r) = ''false'' then (TScalar (JBool False), pos) # lex (pos + 5) (drop 4 r)
      else
        (case scan_number (c # r) of
           Some (Inr v, n) \<Rightarrow> (TScalar v, pos) # lex (pos + n) (drop (n - 1) r)
         | Some (Inl e, n) \<Rightarrow> [(TRaises e, pos)]
         | None \<Rightarrow>
             if take 3 (c # r) = ''NaN'' then
               (TScalar (JFloat FNaN), pos) # lex (pos + 3) (drop 2 r)
             else if take 8 (c # r) = ''Infinity'' then
               (TScalar (JFloat (FInf False)), pos) # lex (pos + 8) (drop 7 r)
             else if take 9 (c # r) = ''-Infinity'' then
               (TScalar (JFloat (FInf True)), pos) # lex (pos + 9) (drop 8 r)
             else [(TBad, pos)]))"

text \<open>
  \<^verbatim>\<open>dict(pairs)\<close>: a key that comes again keeps its place and takes the later value.
\<close>

fun dict_put :: "(string \<times> json) list \<Rightarrow> string \<Rightarrow> json \<Rightarrow> (string \<times> json) list" where
  "dict_put [] k v = [(k, v)]"
| "dict_put ((k', v') # r) k v = (if k' = k then (k, v) # r else (k', v') # dict_put r k v)"

text \<open>
  The containers that are open while a value is read, innermost first: a list with its
  items so far (last first), or a dictionary with its items so far and the key whose
  value is being read.
\<close>

datatype frame = FArr "json list" | FObj "(string \<times> json) list" string

text \<open>
  How the scanner fails: with a message and a position, which become a
  \<^verbatim>\<open>JSONDecodeError\<close>, or with another exception.
\<close>

datatype failure = Malformed string nat | Raises exn

text \<open>
  \<open>parse_value\<close> reads a value, \<open>parse_key\<close> a key and its colon, and \<open>deliver\<close> hands
  a finished value to the innermost open container. The result is the value and the
  tokens after it, or the failure. \<open>depth\<close> is the number of containers that may be
  open at once: a list or object that would be one more raises \<^verbatim>\<open>RecursionError\<close> at
  its opening bracket.
\<close>

fun parse_value ::
    "nat \<Rightarrow> frame list \<Rightarrow> (token \<times> nat) list \<Rightarrow> failure + (json \<times> (token \<times> nat) list)"
  and parse_key ::
    "nat \<Rightarrow> (string \<times> json) list \<Rightarrow> frame list \<Rightarrow> (token \<times> nat) list \<Rightarrow>
       failure + (json \<times> (token \<times> nat) list)"
  and deliver ::
    "nat \<Rightarrow> json \<Rightarrow> frame list \<Rightarrow> (token \<times> nat) list \<Rightarrow> failure + (json \<times> (token \<times> nat) list)"
where
  "parse_value depth st [] = Inl (Malformed ''Expecting value'' 0)"
| "parse_value depth st ((TScalar v, p) # ts) = deliver depth v st ts"
| "parse_value depth st ((TBadString msg q, p) # ts) = Inl (Malformed msg q)"
| "parse_value depth st ((TRaises e, p) # ts) = Inl (Raises e)"
| "parse_value depth st ((TLBrack, p) # ts) =
     (if depth \<le> length st then Inl (Raises RecursionError)
      else
        (case ts of
           (TRBrack, _) # ts' \<Rightarrow> deliver depth (JList []) st ts'
         | _ \<Rightarrow> parse_value depth (FArr [] # st) ts))"
| "parse_value depth st ((TLBrace, p) # ts) =
     (if depth \<le> length st then Inl (Raises RecursionError)
      else
        (case ts of
           (TRBrace, _) # ts' \<Rightarrow> deliver depth (JDict []) st ts'
         | _ \<Rightarrow> parse_key depth [] st ts))"
| "parse_value depth st ((_, p) # ts) = Inl (Malformed ''Expecting value'' p)"
| "parse_key depth items st [] =
     Inl (Malformed ''Expecting property name enclosed in double quotes'' 0)"
| "parse_key depth items st ((TScalar (JStr k), p) # ts) =
     (case ts of
        (TColon, _) # ts' \<Rightarrow> parse_value depth (FObj items k # st) ts'
      | (_, q) # _ \<Rightarrow> Inl (Malformed (''Expecting '' @ [CHR 0x27] @ '':'' @ [CHR 0x27] @ '' delimiter'') q)
      | [] \<Rightarrow> Inl (Malformed (''Expecting '' @ [CHR 0x27] @ '':'' @ [CHR 0x27] @ '' delimiter'') 0))"
| "parse_key depth items st ((TBadString msg q, p) # ts) = Inl (Malformed msg q)"
| "parse_key depth items st ((_, p) # ts) =
     Inl (Malformed ''Expecting property name enclosed in double quotes'' p)"
| "deliver depth v [] ts = Inr (v, ts)"
| "deliver depth v (FArr acc # st) ts =
     (case ts of
        (TRBrack, _) # ts' \<Rightarrow> deliver depth (JList (rev (v # acc))) st ts'
      | (TComma, _) # ts' \<Rightarrow> parse_value depth (FArr (v # acc) # st) ts'
      | (_, q) # _ \<Rightarrow> Inl (Malformed (''Expecting '' @ [CHR 0x27] @ '','' @ [CHR 0x27] @ '' delimiter'') q)
      | [] \<Rightarrow> Inl (Malformed (''Expecting '' @ [CHR 0x27] @ '','' @ [CHR 0x27] @ '' delimiter'') 0))"
| "deliver depth v (FObj items k # st) ts =
     (case ts of
        (TRBrace, _) # ts' \<Rightarrow> deliver depth (JDict (dict_put items k v)) st ts'
      | (TComma, _) # ts' \<Rightarrow> parse_key depth (dict_put items k v) st ts'
      | (_, q) # _ \<Rightarrow> Inl (Malformed (''Expecting '' @ [CHR 0x27] @ '','' @ [CHR 0x27] @ '' delimiter'') q)
      | [] \<Rightarrow> Inl (Malformed (''Expecting '' @ [CHR 0x27] @ '','' @ [CHR 0x27] @ '' delimiter'') 0))"

text \<open>\<^verbatim>\<open>str(e)\<close> of a \<^verbatim>\<open>JSONDecodeError\<close>: the text, then line, column and position.\<close>

definition decode_error :: "string \<Rightarrow> string \<Rightarrow> nat \<Rightarrow> exn" where
  "decode_error doc msg pos =
     (let seen = take pos doc;
          lineno = Suc (length (filter (\<lambda>c. c = CHR 0x0A) seen));
          colno = Suc (length (takeWhile (\<lambda>c. c \<noteq> CHR 0x0A) (rev seen)))
      in JSONDecodeError
           (msg @ '': line '' @ str_nat lineno @ '' column '' @ str_nat colno @
            '' (char '' @ str_nat pos @ '')''))"

text \<open>
  \<^verbatim>\<open>json.loads(doc)\<close> when \<open>depth\<close> containers may be open at once, and with the
  default recursion limit.
\<close>

definition json_decode :: "nat \<Rightarrow> string \<Rightarrow> exn + json" where
  "json_decode depth doc =
     (case parse_value depth [] (lex 0 doc) of
        Inl (Malformed msg p) \<Rightarrow> Inl (decode_error doc msg p)
      | Inl (Raises e) \<Rightarrow> Inl e
      | Inr (v, ts) \<Rightarrow>
          (case ts of
             (TEnd, _) # _ \<Rightarrow> Inr v
           | (_, p) # _ \<Rightarrow> Inl (decode_error doc ''Extra data'' p)
           | [] \<Rightarrow> Inr v))"

definition json_loads :: "string \<Rightarrow> exn + json" where
  "json_loads doc = json_decode recursion_limit doc"

section \<open>The rotation\<close>

text \<open>
  The timer calls \<^verbatim>\<open>toggle_symbol\<close> again and again. \<open>ticks n\<close> is \<open>n\<close> calls in a row
  (an exception ends them), \<open>visited n\<close> the current symbols they show, in order.
\<close>

fun ticks :: "nat \<Rightarrow> binance_socket \<Rightarrow> exn option \<times> binance_socket" where
  "ticks 0 self = (None, self)"
| "ticks (Suc n) self =
     (case toggle_symbol self of
        (Some e, self') \<Rightarrow> (Some e, self')
      | (None, self') \<Rightarrow> ticks n self')"

fun visited :: "nat \<Rightarrow> binance_socket \<Rightarrow> string list" where
  "visited 0 self = []"
| "visited (Suc n) self =
     (case toggle_symbol self of
        (Some e, self') \<Rightarrow> []
      | (None, self') \<Rightarrow> current_symbol self' # visited n self')"

text \<open>
  The states the rotation can be in. An iterator made by \<^verbatim>\<open>cycle(xs)\<close> is either in
  its first pass, with the items handed out so far saved and the rest pending, or past
  it, with all of \<open>xs\<close> saved and an index into it. \<open>cycle_pos\<close> is the place in \<open>xs\<close> of
  the item it hands out next (counted before wrapping round).
\<close>

definition cycle_ok :: "'a list \<Rightarrow> 'a cycle \<Rightarrow> bool" where
  "cycle_ok xs c =
     (case pending c of
        Some r \<Rightarrow> saved c @ r = xs \<and> index c = 0
      | None \<Rightarrow> saved c = xs \<and> index c < length xs)"

definition cycle_pos :: "'a cycle \<Rightarrow> nat" where
  "cycle_pos c = (case pending c of Some r \<Rightarrow> length (saved c) | None \<Rightarrow> index c)"

text \<open>
  \<open>cursor\<close> is the place of the current symbol in the configured list: one before the
  iterator's. An object is \<open>rotating\<close> when its list is not empty, its iterator is one
  over that list and its current symbol is the one at the cursor: so it is after
  \<^verbatim>\<open>__init__\<close>, and \<^verbatim>\<open>toggle_symbol\<close> keeps it so.
\<close>

definition cursor :: "binance_socket \<Rightarrow> nat" where
  "cursor self =
     (cycle_pos (cycle_symbols self) + length (symbols self) - 1) mod length (symbols self)"

definition rotating :: "binance_socket \<Rightarrow> bool" where
  "rotating self =
     (symbols self \<noteq> [] \<and> cycle_ok (symbols self) (cycle_symbols self) \<and>
      current_symbol self = symbols self ! cursor self)"

section \<open>Reading the store\<close>

text \<open>
  The form in which the display asks for a symbol: no hyphens, upper case. A key of
  the store is in that form when it is a string that normalising leaves as it is.
\<close>

definition normalized_key :: "json \<Rightarrow> bool" where
  "normalized_key k = (case k of JStr s \<Rightarrow> upper (replace ''-'' '''' s) = s | _ \<Rightarrow> False)"

text \<open>
  What "rounded to four decimal places" means, stated without the decimal module:
  \<open>n\<close> is the integer nearest to \<open>a / b\<close>, and the even one of the two when \<open>a / b\<close>
  lies half-way between them.
\<close>

definition nearest_even :: "nat \<Rightarrow> nat \<Rightarrow> nat \<Rightarrow> bool" where
  "nearest_even n a b \<longleftrightarrow>
     2 * \<bar>int n * int b - int a\<bar> \<le> int b \<and>
     (2 * \<bar>int n * int b - int a\<bar> = int b \<longrightarrow> even n)"

text \<open>
  A reader for fixed-point text with four decimal places: an optional minus sign,
  digits, a point, four digits. It gives the sign and the number written by the digits
  with the point left out, that is, the value in units of \<open>10\<^sup>-\<^sup>4\<close>.
\<close>

definition fixed4_value :: "string \<Rightarrow> (bool \<times> nat) option" where
  "fixed4_value s =
     (let (neg, r) =
            (case s of
               [] \<Rightarrow> (False, [])
             | c # t \<Rightarrow> if c = CHR ''-'' then (True, t) else (False, s));
          ip = takeWhile is_digit r
      in case dropWhile is_digit r of
           [] \<Rightarrow> None
         | c # fp \<Rightarrow>
             if c = CHR ''.'' \<and> ip \<noteq> [] \<and> length fp = 4 \<and> list_all is_digit fp
             then Some (neg, nat_of_digits (ip @ fp))
             else None)"

section \<open>Reading the effects\<close>

text \<open>
  The payloads sent, and the network events among the effects of an object, in the
  order they happened: connection attempts, the log lines that report a connection
  error, and sleeps.
\<close>

definition connection_report :: "string \<Rightarrow> bool" where
  "connection_report m = (take (length ''WebSocket connection error: '') m = ''WebSocket connection error: '')"

fun sends :: "event list \<Rightarrow> string list" where
  "sends [] = []"
| "sends (Send p # evs) = p # sends evs"
| "sends (_ # evs) = sends evs"

fun net_events :: "event list \<Rightarrow> event list" where
  "net_events [] = []"
| "net_events (Connect u # evs) = Connect u # net_events evs"
| "net_events (Sleep n # evs) = Sleep n # net_events evs"
| "net_events (LogError m # evs) =
     (if connection_report m then LogError m # net_events evs else net_events evs)"
| "net_events (_ # evs) = net_events evs"

text \<open>
  The frames a session delivers, the exception that ends it, if one does, and the text
  of that exception.
\<close>

fun frames :: "session \<Rightarrow> string list" where
  "frames (Receives ms closing) = ms"
| "frames _ = []"

fun ending :: "session \<Rightarrow> exn option" where
  "ending (ConnectFails e) = Some e"
| "ending (SendFails e) = Some e"
| "ending (Receives ms closing) = closing"

definition ending_text :: "session \<Rightarrow> string" where
  "ending_text s = (case ending s of Some e \<Rightarrow> exn_text e | None \<Rightarrow> [])"

text \<open>
  \<open>same_net self self'\<close>: from \<open>self\<close> to \<open>self'\<close> the symbols and the current symbol are
  unchanged and the effects have only grown, by nothing sent, connected or slept.
\<close>

definition same_net :: "binance_socket \<Rightarrow> binance_socket \<Rightarrow> bool" where
  "same_net self self' \<longleftrightarrow>
     symbols self' = symbols self \<and> current_symbol self' = current_symbol self \<and>
     (\<exists>es. out self' = out self @ es \<and> sends es = [] \<and> net_events es = [])"

section \<open>The scenario of the examples\<close>

text \<open>
  The object right after \<^verbatim>\<open>__init__\<close> with \<^verbatim>\<open>SYMBOLS=BTC-USDT,ETH-USDT\<close> and
  \<^verbatim>\<open>TOGGLE_RATE=2\<close>.
\<close>

definition started :: binance_socket where
  "started =
     \<lparr>symbols = [''BTC-USDT'', ''ETH-USDT''], refresh = 2, data = [], ctr = 0,
      cycle_symbols = \<lparr>pending = Some [''ETH-USDT''], saved = [''BTC-USDT''], index = 0\<rparr>,
      current_symbol = ''BTC-USDT'', out = []\<rparr>"

text \<open>The exceptions that \<^verbatim>\<open>handle_message\<close> catches.\<close>

definition is_decode_error :: "exn \<Rightarrow> bool" where
  "is_decode_error e = (case e of JSONDecodeError _ \<Rightarrow> True | _ \<Rightarrow> False)"

lemma init_started: "init ''BTC-USDT,ETH-USDT'' 2 = Inr started"
  by (simp add: init_def cycle_def cycle_next_def started_def)

section \<open>Frames and what \<^verbatim>\<open>json.loads\<close> makes of them\<close>

lemma loads_ticker:
  \<open>json_loads ''{"s":"BTCUSDT","c":"50000.00","P":"1.2345","v":"10","q":"500000"}'' =
     Inr (JDict [(''s'', JStr ''BTCUSDT''), (''c'', JStr ''50000.00''), (''P'', JStr ''1.2345''),
                 (''v'', JStr ''10''), (''q'', JStr ''500000'')])\<close>
  by code_simp

lemma loads_ack:
  \<open>json_loads ''{"id":1,"result":null}'' = Inr (JDict [(''id'', JInt 1), (''result'', JNull)])\<close>
  by code_simp

lemma loads_garbage:
  \<open>json_loads ''not json'' = Inl (JSONDecodeError ''Expecting value: line 1 column 1 (char 0)'')\<close>
  by code_simp

lemma loads_no_price:
  \<open>json_loads ''{"s":"BTCUSDT","P":"1.2345","v":"10","q":"500000"}'' =
     Inr (JDict [(''s'', JStr ''BTCUSDT''), (''P'', JStr ''1.2345''), (''v'', JStr ''10''),
                 (''q'', JStr ''500000'')])\<close>
  by code_simp

lemma loads_digits_and_letter:
  \<open>json_loads ''11x'' = Inl (JSONDecodeError ''Extra data: line 1 column 3 (char 2)'')\<close>
  by code_simp

lemma loads_open_brackets:
  \<open>json_loads ''[[['' = Inl (JSONDecodeError ''Expecting value: line 1 column 4 (char 3)'')\<close>
  by code_simp

text \<open>
  The two limits. An integer literal of more than 4300 digits raises \<^verbatim>\<open>ValueError\<close>
  whatever follows it, and one bracket more than there is room for raises
  \<^verbatim>\<open>RecursionError\<close>.
\<close>

lemma scan_number_long:
  assumes "int_max_str_digits < n"
  shows "scan_number (replicate n (CHR ''1'') @ ''x'') = Some (Inl ValueError, n)"
proof -
  from assms obtain m where n: "n = Suc m"
    by (cases n) auto
  have d: "is_digit (CHR ''1'')" and x: "\<not> is_digit (CHR ''x'')"
    by (simp_all add: is_digit_def)
  have tw: "takeWhile is_digit (replicate n (CHR ''1'') @ ''x'') = replicate n (CHR ''1'')"
    by (induction n) (simp_all add: d x)
  have e: "scan_exponent ''x'' = None"
    by (simp add: scan_exponent_def)
  show ?thesis
    using assms tw e unfolding n
    by (simp add: scan_number_def Let_def)
qed

lemma json_decode_long_integer:
  assumes "int_max_str_digits < n"
  shows "json_decode depth (replicate n (CHR ''1'') @ ''x'') = Inl ValueError"
proof -
  from assms obtain m where n: "n = Suc m"
    by (cases n) auto
  have "lex 0 (replicate n (CHR ''1'') @ ''x'') = [(TRaises ValueError, 0)]"
    using scan_number_long [OF assms] unfolding n
    by (simp add: is_json_space_def)
  then show ?thesis
    by (simp add: json_decode_def)
qed

lemma parse_value_deep:
  assumes "length st \<le> depth" and "depth < length st + n"
  shows "parse_value depth st (lex pos (replicate n (CHR ''[''))) = Inl (Raises RecursionError)"
  using assms
proof (induction n arbitrary: st pos)
  case 0
  then show ?case by simp
next
  case (Suc n)
  define ts where "ts = lex (Suc pos) (replicate n (CHR ''[''))"
  have l: "lex pos (replicate (Suc n) (CHR ''['')) = (TLBrack, pos) # ts"
    by (simp add: ts_def is_json_space_def)
  show ?case
  proof (cases "depth \<le> length st")
    case True
    then have "parse_value depth st ((TLBrack, pos) # ts) = Inl (Raises RecursionError)"
      by simp
    then show ?thesis
      unfolding l .
  next
    case False
    with Suc.prems obtain m where n: "n = Suc m"
      by (cases n) auto
    have hd: "\<exists>p r. ts = (TLBrack, p) # r"
      unfolding ts_def n by (simp add: is_json_space_def)
    have ih: "parse_value depth (FArr [] # st) ts = Inl (Raises RecursionError)"
      unfolding ts_def using False Suc.prems by (intro Suc.IH) simp_all
    have "parse_value depth st ((TLBrack, pos) # ts) = parse_value depth (FArr [] # st) ts"
      using False hd by auto
    with ih show ?thesis
      unfolding l by simp
  qed
qed

lemma json_decode_deep_nesting:
  assumes "depth < n"
  shows "json_decode depth (replicate n (CHR ''['')) = Inl RecursionError"
  using parse_value_deep [of "[]" depth n 0] assms
  by (simp add: json_decode_def)

lemma Decimal_example: "Decimal (JStr ''1.2345'') = Inr (DFinite False 12345 (- 4))"
  by (simp add: Decimal_def decimal_of_string_def strip_def is_space_def is_digit_def
      lower_char_def decimal_exponent_def nat_of_digits_def digit_val_def finite_decimal_def
      MPD_MAX_PREC_def MPD_MAX_EMAX_def MPD_MIN_ETINY_def str_nat.simps)

lemma format_example: "format_4f (DFinite False 12345 (- 4)) = Inr ''1.2345''"
  by (simp add: format_4f_def rescale4_def str_nat.simps digit_char_def MPD_MAX_PREC_def)

section \<open>Handling one message\<close>

text \<open>No step of the message handling raises \<^verbatim>\<open>JSONDecodeError\<close>: only the decoder does.\<close>

lemma then_do_Inr [simp]: "then_do (Inr x) f = f x"
  by (simp add: then_do_def)

lemma then_do_Inl [simp]: "then_do (Inl e) f = Inl e"
  by (simp add: then_do_def)

lemma then_do_eq_Inr:
  "then_do m f = Inr y \<longleftrightarrow> (\<exists>x. m = Inr x \<and> f x = Inr y)"
  by (cases m) simp_all

lemma py_in_JDict [simp]: "py_in k (JDict items) = Inr (k \<in> fst ` set items)"
  by (simp add: py_in_def)

lemma getitem_JDict:
  "getitem (JDict items) k = (case map_of items k of None \<Rightarrow> Inl (KeyError k) | Some x \<Rightarrow> Inr x)"
  by (simp add: getitem_def)

lemma getitem_missing:
  assumes "k \<notin> fst ` set items"
  shows "getitem (JDict items) k = Inl (KeyError k)"
proof -
  from assms have "map_of items k = None"
    by (simp only: map_of_eq_None_iff not_False_eq_True)
  then show ?thesis
    by (simp add: getitem_JDict)
qed

lemma finite_decimal_error: "finite_decimal sg c x = Inl e \<Longrightarrow> e = InvalidOperation"
  by (simp add: finite_decimal_def Let_def split: if_splits)

lemma decimal_of_string_error: "decimal_of_string s = Inl e \<Longrightarrow> e = InvalidOperation"
  by (auto simp: decimal_of_string_def Let_def
      split: prod.splits if_splits option.splits list.splits dest: finite_decimal_error)

lemma c_long_error: "c_long v = Inl e \<Longrightarrow> e = ValueError \<or> e = OverflowError"
  by (auto simp: c_long_def split: option.splits if_splits)

lemma digits_value_error: "digits_value a ds = Inl e \<Longrightarrow> e = ValueError \<or> e = OverflowError"
proof (induction ds arbitrary: a)
  case Nil
  then show ?case by simp
next
  case (Cons d ds)
  show ?case
  proof (cases "c_long d")
    case (Inl x)
    with Cons.prems have "c_long d = Inl e"
      by simp
    then show ?thesis
      by (rule c_long_error)
  next
    case (Inr n)
    show ?thesis
    proof (cases "0 \<le> n \<and> n \<le> 9")
      case True
      with Cons.prems Inr have "digits_value (10 * a + nat n) ds = Inl e"
        by simp
      then show ?thesis
        by (rule Cons.IH)
    next
      case False
      with Cons.prems Inr show ?thesis
        by auto
    qed
  qed
qed

lemma digits_of_json_error: "digits_of_json v = Inl e \<Longrightarrow> e = ValueError \<or> e = OverflowError"
  by (auto simp: digits_of_json_def split: json.splits dest: digits_value_error)

lemma decimal_of_list_error:
  assumes "decimal_of_list xs = Inl e"
  shows "e = ValueError \<or> e = OverflowError \<or> e = InvalidOperation"
proof -
  have "(\<exists>s ds ex. xs = [s, ds, ex]) \<or> decimal_of_list xs = Inl ValueError"
    by (simp add: decimal_of_list_def split: list.splits)
  then consider s ds ex where "xs = [s, ds, ex]" | "decimal_of_list xs = Inl ValueError"
    by blast
  then show ?thesis
  proof cases
    case 1
    show ?thesis
    proof (cases "c_long s")
      case (Inl x)
      with assms 1 have "c_long s = Inl e"
        by (simp add: decimal_of_list_def)
      then show ?thesis
        using c_long_error by blast
    next
      case sg: (Inr sg)
      show ?thesis
      proof (cases "sg \<noteq> 0 \<and> sg \<noteq> 1")
        case True
        with assms 1 sg show ?thesis
          by (simp add: decimal_of_list_def)
      next
        case False
        show ?thesis
        proof (cases "\<exists>t. ex = JStr t")
          case True
          then obtain t where t: "ex = JStr t"
            by blast
          with assms 1 sg False show ?thesis
            by (cases "digits_of_json ds")
               (auto simp: decimal_of_list_def split: if_splits dest: digits_of_json_error)
        next
          case nostr: False
          from assms 1 sg False nostr have
            *: "then_do (c_long ex) (\<lambda>e. then_do (digits_of_json ds) (\<lambda>c. finite_decimal (sg = 1) c e)) = Inl e"
            by (cases ex) (simp_all add: decimal_of_list_def)
          show ?thesis
          proof (cases "c_long ex")
            case (Inl x)
            with * have "c_long ex = Inl e"
              by simp
            then show ?thesis
              using c_long_error by blast
          next
            case ex: (Inr n)
            show ?thesis
            proof (cases "digits_of_json ds")
              case (Inl x)
              with * ex have "digits_of_json ds = Inl e"
                by simp
              then show ?thesis
                using digits_of_json_error by blast
            next
              case (Inr c)
              with * ex have "finite_decimal (sg = 1) c n = Inl e"
                by simp
              then show ?thesis
                using finite_decimal_error by blast
            qed
          qed
        qed
      qed
    qed
  next
    case 2
    with assms show ?thesis
      by simp
  qed
qed

lemma Decimal_error:
  "Decimal v = Inl e \<Longrightarrow> e = InvalidOperation \<or> e = ValueError \<or> e = TypeError \<or> e = OverflowError"
  by (auto simp: Decimal_def split: json.splits pyfloat.splits
      dest: decimal_of_string_error decimal_of_list_error finite_decimal_error)

lemma format_4f_error: "format_4f d = Inl e \<Longrightarrow> e = ValueError"
  by (auto simp: format_4f_def Let_def split: decimal.splits if_splits)

lemma getitem_error: "getitem d k = Inl e \<Longrightarrow> e = KeyError k \<or> e = TypeError"
  by (auto simp: getitem_def split: json.splits option.splits)

lemma ticker_record_error_class:
  assumes "ticker_record d = Inl e"
  shows "e = InvalidOperation \<or> e = ValueError \<or> e = TypeError \<or> e = OverflowError \<or>
         (\<exists>k. e = KeyError k)"
  using assms
  by (auto simp: ticker_record_def then_do_def split: sum.splits
      dest: Decimal_error getitem_error format_4f_error)

lemma ticker_record_error:
  assumes "ticker_record d = Inl e"
  shows "\<not> is_decode_error e"
  using ticker_record_error_class [OF assms]
  by (auto simp: is_decode_error_def)

text \<open>
  The handled case: a message that \<^verbatim>\<open>json.loads\<close> rejects with \<^verbatim>\<open>JSONDecodeError\<close>
  does not make \<^verbatim>\<open>handle_message\<close> raise. The method returns, the object is as before
  but for one error line in the log, and the receive loop goes on with the next frame.
\<close>

lemma malformed_message_is_logged_and_skipped:
  assumes "loads message = Inl (JSONDecodeError e)"
  shows "handle_message loads message self =
           (None, self\<lparr>out := out self @ [LogError (''Error decoding message: '' @ e)]\<rparr>) \<and>
         receive loads (message # rest) self =
           receive loads rest (self\<lparr>out := out self @ [LogError (''Error decoding message: '' @ e)]\<rparr>)"
  using assms by (simp add: handle_message_def)

lemma malformed_message_example:
  "handle_message json_loads ''not json'' started =
     (None, started\<lparr>out := [LogError ''Error decoding message: Expecting value: line 1 column 1 (char 0)'']\<rparr>) \<and>
   receive json_loads [''not json''] started =
     (None, started\<lparr>out := [LogError ''Error decoding message: Expecting value: line 1 column 1 (char 0)'']\<rparr>)"
  using malformed_message_is_logged_and_skipped
    [where loads = json_loads and message = "''not json''" and self = started and rest = "[]",
     OF loads_garbage]
  by (simp add: started_def)

text \<open>
  An exception of the decoder that is neither a \<^verbatim>\<open>JSONDecodeError\<close> nor named by
  the \<^verbatim>\<open>except\<close> clauses around the sessions leaves \<^verbatim>\<open>handle_message\<close>, the receive
  loop and \<^verbatim>\<open>fetch_ticker_data\<close>, with nothing logged and the object unchanged.
\<close>

lemma uncaught_decoder_exception:
  assumes "loads message = Inl e" and "e = ValueError \<or> e = RecursionError"
  shows "handle_message loads message self = (Some e, self) \<and>
         receive loads (message # rest) self = (Some e, self) \<and>
         fst (fetch_ticker_data loads (Receives (message # rest) closing # later) self) = Raised e \<and>
         fst (fetch_ticker_data_console loads (Receives (message # rest) closing) self) = Raised e"
proof -
  from assms(2) have nr: "\<not> retried e" and nf: "\<not> fatal_console e"
    by (auto simp: retried_def fatal_console_def)
  have h: "handle_message loads message s = (Some e, s)" for s
    using assms by (auto simp: handle_message_def)
  have "receive loads (message # rest) s = (Some e, s)" for s
    by (simp add: h)
  then show ?thesis
    using h nr nf by (simp add: fetch_ticker_data_console_def)
qed

lemma json_loads_eq: "json_loads = json_decode recursion_limit"
  by (rule ext) (simp add: json_loads_def)

text \<open>
  C5. Not every text that is not JSON is rejected with \<^verbatim>\<open>JSONDecodeError\<close>. Whatever
  room the recursion limit leaves, the decoder raises \<^verbatim>\<open>ValueError\<close> on more than 4300
  digits followed by a letter, and \<^verbatim>\<open>RecursionError\<close> on more opening brackets than
  there is room for. \<^verbatim>\<open>handle_message\<close> catches neither: the exception leaves it with
  nothing logged and the object unchanged, and it ends the receive loop and
  \<^verbatim>\<open>fetch_ticker_data\<close> in both programs, so the frames after it are never handled.
\<close>

theorem decoder_limit_ends_the_feed:
  assumes "message = replicate n (CHR ''1'') @ ''x'' \<and> int_max_str_digits < n \<and> e = ValueError \<or>
           message = replicate n (CHR ''['') \<and> depth < n \<and> e = RecursionError"
  shows "json_decode depth message = Inl e \<and>
         handle_message (json_decode depth) message self = (Some e, self) \<and>
         receive (json_decode depth) (message # rest) self = (Some e, self) \<and>
         fst (fetch_ticker_data (json_decode depth) (Receives (message # rest) closing # later) self) =
           Raised e \<and>
         fst (fetch_ticker_data_console (json_decode depth) (Receives (message # rest) closing) self) =
           Raised e"
proof -
  from assms have d: "json_decode depth message = Inl e"
    by (auto simp: json_decode_long_integer json_decode_deep_nesting)
  moreover from assms have "e = ValueError \<or> e = RecursionError"
    by blast
  ultimately show ?thesis
    using uncaught_decoder_exception [of "json_decode depth" message e self rest closing later]
    by blast
qed

theorem decoder_limit_ends_the_feed_witness:
  \<open>handle_message json_loads (replicate 4301 (CHR ''1'') @ ''x'') started = (Some ValueError, started) \<and>
   fst (fetch_ticker_data json_loads
          [Receives [replicate 4301 (CHR ''1'') @ ''x'',
                     ''{"s":"BTCUSDT","c":"50000.00","P":"1.2345","v":"10","q":"500000"}''] None,
           Receives [] None] started) = Raised ValueError \<and>
   fst (fetch_ticker_data_console json_loads
          (Receives [replicate 4301 (CHR ''1'') @ ''x'',
                     ''{"s":"BTCUSDT","c":"50000.00","P":"1.2345","v":"10","q":"500000"}''] None)
          started) = Raised ValueError \<and>
   handle_message json_loads (replicate 1200 (CHR ''['')) started = (Some RecursionError, started) \<and>
   json_loads ''11x'' = Inl (JSONDecodeError ''Extra data: line 1 column 3 (char 2)'') \<and>
   json_loads ''[[['' = Inl (JSONDecodeError ''Expecting value: line 1 column 4 (char 3)'')\<close>
proof -
  let ?m = \<open>replicate 4301 (CHR ''1'') @ ''x''\<close>
  let ?n = \<open>''{"s":"BTCUSDT","c":"50000.00","P":"1.2345","v":"10","q":"500000"}''\<close>
  have a: "?m = replicate 4301 (CHR ''1'') @ ''x'' \<and> int_max_str_digits < 4301 \<and> ValueError = ValueError \<or>
      ?m = replicate 4301 (CHR ''['') \<and> recursion_limit < 4301 \<and> ValueError = RecursionError"
    by (simp add: int_max_str_digits_def)
  have b: "replicate 1200 (CHR ''['') = replicate 1200 (CHR ''1'') @ ''x'' \<and> int_max_str_digits < 1200 \<and>
        RecursionError = ValueError \<or>
      replicate 1200 (CHR ''['') = replicate 1200 (CHR ''['') \<and> recursion_limit < 1200 \<and>
        RecursionError = RecursionError"
    by (simp add: recursion_limit_def)
  note t1 = decoder_limit_ends_the_feed
    [where depth = recursion_limit and self = started and rest = "[?n]" and closing = None
       and later = "[Receives [] None]", OF a, folded json_loads_eq]
  note t2 = decoder_limit_ends_the_feed
    [where depth = recursion_limit and self = started and rest = "[]" and closing = None
       and later = "[]", OF b, folded json_loads_eq]
  have 1: "handle_message json_loads ?m started = (Some ValueError, started)"
    by (rule t1 [THEN conjunct2, THEN conjunct1])
  have 2: "fst (fetch_ticker_data json_loads [Receives [?m, ?n] None, Receives [] None] started) =
             Raised ValueError"
    by (rule t1 [THEN conjunct2, THEN conjunct2, THEN conjunct2, THEN conjunct1])
  have 3: "fst (fetch_ticker_data_console json_loads (Receives [?m, ?n] None) started) =
             Raised ValueError"
    by (rule t1 [THEN conjunct2, THEN conjunct2, THEN conjunct2, THEN conjunct2])
  have 4: "handle_message json_loads (replicate 1200 (CHR ''['')) started = (Some RecursionError, started)"
    by (rule t2 [THEN conjunct2, THEN conjunct1])
  show ?thesis
    by (intro conjI) (rule 1 2 3 4 loads_digits_and_letter loads_open_brackets)+
qed

text \<open>
  C4. A frame that decodes to an object with an \<^verbatim>\<open>id\<close> key is ignored: the method
  returns without raising and the whole object (the ticker store and the log included)
  is unchanged.
\<close>

theorem ack_frame_is_ignored:
  assumes "loads message = Inr (JDict items)" and "''id'' \<in> fst ` set items"
  shows "handle_message loads message self = (None, self)"
  using assms by (simp add: handle_message_def)

theorem ack_frame_is_ignored_witness:
  \<open>handle_message json_loads ''{"id":1,"result":null}'' started = (None, started)\<close>
  using ack_frame_is_ignored
    [where loads = json_loads and self = started, OF loads_ack]
  by simp

text \<open>
  C10. Whatever the message, \<^verbatim>\<open>handle_message\<close> either leaves the ticker store as it
  was, or it returns normally after one store of a record built in full from the frame.
  When it raises, the whole object is as before.
\<close>

theorem handle_message_is_atomic:
  assumes "handle_message loads message self = (r, self')"
  shows "(r \<noteq> None \<longrightarrow> self' = self) \<and>
         (data self' = data self \<or>
          r = None \<and>
          (\<exists>d snap k. loads message = Inr d \<and> ticker_record d = Inr snap \<and>
             getitem d ''s'' = Inr k \<and> data self' = dict_set (data self) k snap))"
  using assms
  by (auto simp: handle_message_def setitem_def
      split: sum.splits exn.splits bool.splits if_splits)

theorem handle_message_is_atomic_witness:
  \<open>handle_message json_loads ''{"s":"BTCUSDT","P":"1.2345","v":"10","q":"500000"}'' started =
     (Some (KeyError ''c''), started)\<close>
proof -
  let ?m = \<open>''{"s":"BTCUSDT","P":"1.2345","v":"10","q":"500000"}''\<close>
  obtain r self' where eq: "handle_message json_loads ?m started = (r, self')"
    by (cases "handle_message json_loads ?m started")
  have r: "r = Some (KeyError ''c'')"
    using eq
    by (simp add: handle_message_def loads_no_price ticker_record_def getitem_JDict
        Decimal_example format_example)
  with handle_message_is_atomic [OF eq] have "self' = started"
    by simp
  with eq r show ?thesis
    by simp
qed

text \<open>
  C1. A frame that decodes to an object without \<^verbatim>\<open>id\<close> and lacks one of the five
  ticker fields makes \<^verbatim>\<open>handle_message\<close> raise an exception that is not a
  \<^verbatim>\<open>JSONDecodeError\<close>: nothing is logged, the object is unchanged, and the exception ends
  the receive loop and \<^verbatim>\<open>fetch_ticker_data\<close> itself (neither program names it in its
  \<^verbatim>\<open>except\<close> clause), so the frames after it are never handled.
\<close>

theorem incomplete_ticker_ends_the_feed:
  assumes "loads message = Inr (JDict items)"
    and "''id'' \<notin> fst ` set items"
    and "\<not> {''s'', ''c'', ''P'', ''v'', ''q''} \<subseteq> fst ` set items"
  shows "\<exists>e. handle_message loads message self = (Some e, self) \<and>
             \<not> is_decode_error e \<and> \<not> retried e \<and> \<not> fatal_console e \<and>
             receive loads (message # rest) self = (Some e, self) \<and>
             fst (fetch_ticker_data loads (Receives (message # rest) closing # later) self) = Raised e \<and>
             fst (fetch_ticker_data_console loads (Receives (message # rest) closing) self) = Raised e"
proof -
  have "\<exists>e. ticker_record (JDict items) = Inl e"
  proof (cases "ticker_record (JDict items)")
    case (Inl e)
    then show ?thesis by blast
  next
    case (Inr snap)
    then have "\<forall>k \<in> {''s'', ''c'', ''P'', ''v'', ''q''}. \<exists>x. getitem (JDict items) k = Inr x"
      by (auto simp: ticker_record_def then_do_eq_Inr)
    then have "\<forall>k \<in> {''s'', ''c'', ''P'', ''v'', ''q''}. k \<in> fst ` set items"
      using getitem_missing by fastforce
    with assms(3) show ?thesis by blast
  qed
  then obtain e where e: "ticker_record (JDict items) = Inl e"
    by blast
  then have nd: "\<not> is_decode_error e"
    by (rule ticker_record_error)
  from ticker_record_error_class [OF e] have nr: "\<not> retried e" and nf: "\<not> fatal_console e"
    by (auto simp: retried_def fatal_console_def)
  have h: "handle_message loads message s = (Some e, s)" for s
    using assms(1,2) e by (simp add: handle_message_def)
  have "receive loads (message # rest) s = (Some e, s)" for s
    by (simp add: h)
  then show ?thesis
    using h nd nr nf by (simp add: fetch_ticker_data_console_def)
qed

theorem incomplete_ticker_ends_the_feed_witness:
  \<open>handle_message json_loads ''{"s":"BTCUSDT","P":"1.2345","v":"10","q":"500000"}'' started =
     (Some (KeyError ''c''), started) \<and>
   fst (fetch_ticker_data json_loads
          [Receives [''{"s":"BTCUSDT","P":"1.2345","v":"10","q":"500000"}'',
                     ''{"s":"BTCUSDT","c":"50000.00","P":"1.2345","v":"10","q":"500000"}''] None,
           Receives [] None] started) = Raised (KeyError ''c'') \<and>
   fst (fetch_ticker_data_console json_loads
          (Receives [''{"s":"BTCUSDT","P":"1.2345","v":"10","q":"500000"}'',
                     ''{"s":"BTCUSDT","c":"50000.00","P":"1.2345","v":"10","q":"500000"}''] None)
          started) = Raised (KeyError ''c'')\<close>
proof -
  let ?m = \<open>''{"s":"BTCUSDT","P":"1.2345","v":"10","q":"500000"}''\<close>
  let ?n = \<open>''{"s":"BTCUSDT","c":"50000.00","P":"1.2345","v":"10","q":"500000"}''\<close>
  have h: "handle_message json_loads ?m started = (Some (KeyError ''c''), started)"
    by (simp add: handle_message_def loads_no_price ticker_record_def getitem_JDict
        Decimal_example format_example)
  from incomplete_ticker_ends_the_feed
    [where loads = json_loads and self = started and rest = "[?n]" and closing = None
       and later = "[Receives [] None]", OF loads_no_price]
  obtain e where "handle_message json_loads ?m started = (Some e, started)"
    and "fst (fetch_ticker_data json_loads [Receives [?m, ?n] None, Receives [] None] started) = Raised e"
    and "fst (fetch_ticker_data_console json_loads (Receives [?m, ?n] None) started) = Raised e"
    by auto
  with h show ?thesis
    by simp
qed

section \<open>The rotation is cyclic\<close>

lemma cycle_next_ok:
  assumes ok: "cycle_ok xs c" and ne: "xs \<noteq> []"
  shows "\<exists>c'. cycle_next c = Inr (xs ! (cycle_pos c mod length xs), c') \<and> cycle_ok xs c' \<and>
              cycle_pos c' mod length xs = Suc (cycle_pos c) mod length xs"
proof (cases "pending c")
  case None
  with ok have sv: "saved c = xs" and ix: "index c < length xs"
    by (simp_all add: cycle_ok_def)
  from None sv ix ne show ?thesis
    by (auto simp: cycle_next_def cycle_ok_def cycle_pos_def mod_Suc)
next
  case (Some r)
  with ok have sv: "saved c @ r = xs" and ix: "index c = 0"
    by (simp_all add: cycle_ok_def)
  show ?thesis
  proof (cases r)
    case Nil
    with sv have "saved c = xs" by simp
    with Some Nil ix ne show ?thesis
      by (cases xs) (auto simp: cycle_next_def cycle_ok_def cycle_pos_def mod_Suc)
  next
    case (Cons x r')
    with sv have xs: "xs = saved c @ x # r'" by simp
    then have "xs ! length (saved c) = x" and "length (saved c) < length xs"
      by simp_all
    with Some Cons xs ix show ?thesis
      by (simp add: cycle_next_def cycle_ok_def cycle_pos_def)
  qed
qed

lemma cursor_step:
  assumes "0 < l" and "p' mod l = Suc p mod l"
  shows "(p' + l - 1) mod l = p mod l" and "Suc ((p + l - 1) mod l) mod l = p mod l"
proof -
  from assms(1) have e1: "p' + l - 1 = p' + (l - 1)" and e2: "Suc p + (l - 1) = p + l"
    and e3: "Suc (p + l - 1) = p + l"
    by simp_all
  have "(p' + (l - 1)) mod l = (p' mod l + (l - 1)) mod l"
    by (simp only: mod_add_left_eq)
  also have "\<dots> = (Suc p mod l + (l - 1)) mod l"
    by (simp only: assms(2))
  also have "\<dots> = (Suc p + (l - 1)) mod l"
    by (simp only: mod_add_left_eq)
  finally show "(p' + l - 1) mod l = p mod l"
    by (simp only: e1 e2 mod_add_self2)
  have "Suc ((p + l - 1) mod l) mod l = Suc (p + l - 1) mod l"
    by (simp only: mod_Suc_eq)
  then show "Suc ((p + l - 1) mod l) mod l = p mod l"
    by (simp only: e3 mod_add_self2)
qed

lemma cursor_shift: "(Suc a mod l + Suc i) mod l = (a + Suc (Suc i)) mod l"
proof -
  have "(Suc a mod l + Suc i) mod l = (Suc a + Suc i) mod l"
    by (simp only: mod_add_left_eq)
  then show ?thesis
    by simp
qed

lemma toggle_symbol_rotating:
  assumes "rotating self"
  shows "\<exists>self'. toggle_symbol self = (None, self') \<and> rotating self' \<and>
           symbols self' = symbols self \<and> data self' = data self \<and> ctr self' = 0 \<and>
           cursor self' = Suc (cursor self) mod length (symbols self) \<and>
           current_symbol self' = symbols self ! (Suc (cursor self) mod length (symbols self))"
proof -
  let ?xs = "symbols self" and ?c = "cycle_symbols self"
  from assms have ne: "?xs \<noteq> []" and ok: "cycle_ok ?xs ?c"
    by (simp_all add: rotating_def)
  from cycle_next_ok [OF ok ne] obtain c' where
    nx: "cycle_next ?c = Inr (?xs ! (cycle_pos ?c mod length ?xs), c')" and
    ok': "cycle_ok ?xs c'" and
    pos: "cycle_pos c' mod length ?xs = Suc (cycle_pos ?c) mod length ?xs"
    by blast
  from ne have l: "0 < length ?xs" by simp
  note cs = cursor_step [OF l pos]
  let ?x = "?xs ! (cycle_pos ?c mod length ?xs)"
  let ?self' = "self\<lparr>cycle_symbols := c', current_symbol := ?x, ctr := 0,
                       out := out self @ [LogInfo (''Switched to symbol: '' @ ?x)]\<rparr>"
  have t: "toggle_symbol self = (None, ?self')"
    by (simp add: toggle_symbol_def nx)
  have cur: "cursor ?self' = cycle_pos ?c mod length ?xs"
    using cs(1) by (simp add: cursor_def)
  have suc: "Suc (cursor self) mod length ?xs = cycle_pos ?c mod length ?xs"
    using cs(2) by (simp add: cursor_def)
  have "rotating ?self'"
    using ne ok' cur by (simp add: rotating_def)
  with t cur suc show ?thesis
    by simp
qed

lemma ticks_rotating:
  assumes "rotating self"
  shows "\<exists>self'. ticks n self = (None, self') \<and> rotating self' \<and> symbols self' = symbols self \<and>
           data self' = data self \<and>
           cursor self' = (cursor self + n) mod length (symbols self)"
  using assms
proof (induction n arbitrary: self)
  case 0
  then have "cursor self < length (symbols self)"
    by (simp add: cursor_def rotating_def)
  with 0 show ?case by simp
next
  case (Suc n)
  from toggle_symbol_rotating [OF Suc.prems] obtain s1 where
    t: "toggle_symbol self = (None, s1)" and r1: "rotating s1" and
    sy: "symbols s1 = symbols self" and d1: "data s1 = data self" and
    c1: "cursor s1 = Suc (cursor self) mod length (symbols self)"
    by blast
  from Suc.IH [OF r1] obtain s2 where
    "ticks n s1 = (None, s2)" and "rotating s2" and "symbols s2 = symbols s1" and
    "data s2 = data s1" and "cursor s2 = (cursor s1 + n) mod length (symbols s1)"
    by blast
  with t sy d1 c1 show ?case
    by (simp add: mod_add_left_eq)
qed

lemma visited_rotating:
  assumes "rotating self"
  shows "visited n self =
           map (\<lambda>i. symbols self ! ((cursor self + Suc i) mod length (symbols self))) [0..<n]"
  using assms
proof (induction n arbitrary: self)
  case 0
  show ?case by simp
next
  case (Suc n)
  from toggle_symbol_rotating [OF Suc.prems] obtain s1 where
    t: "toggle_symbol self = (None, s1)" and r1: "rotating s1" and
    sy: "symbols s1 = symbols self" and
    c1: "cursor s1 = Suc (cursor self) mod length (symbols self)" and
    cu: "current_symbol s1 = symbols self ! (Suc (cursor self) mod length (symbols self))"
    by blast
  have "visited (Suc n) self = current_symbol s1 # visited n s1"
    by (simp add: t)
  also have "visited n s1 =
      map (\<lambda>i. symbols self ! ((cursor self + Suc (Suc i)) mod length (symbols self))) [0..<n]"
    by (simp only: Suc.IH [OF r1] sy c1 cursor_shift)
  finally show ?case
    by (simp add: cu map_upt_Suc del: upt_Suc)
qed

lemma init_rotating:
  assumes "init symbols_env toggle_rate = Inr self"
  shows "rotating self \<and> cursor self = 0 \<and> symbols self = split_on (CHR '','') symbols_env"
proof (cases "split_on (CHR '','') symbols_env")
  case Nil
  with assms show ?thesis
    by (simp add: init_def)
next
  case (Cons x r)
  with assms show ?thesis
    by (auto simp: init_def Let_def cycle_def cycle_next_def rotating_def cycle_ok_def
        cursor_def cycle_pos_def split: if_splits)
qed

lemma rotating_started: "rotating started"
  using init_rotating [OF init_started] by simp

text \<open>
  C8. From any state of the rotation, on a list of \<open>L\<close> symbols: after any multiple of
  \<open>L\<close> ticks the current symbol is the one it was; the \<open>L\<close> symbols of one round are the
  configured list, rotated to start after the current symbol, so every place of the list
  is shown once, in the configured order; and every tick leaves the counter at 0.
\<close>

theorem rotation_is_cyclic:
  assumes "rotating self"
  shows "(\<exists>self'. ticks (k * length (symbols self)) self = (None, self') \<and> rotating self' \<and>
            current_symbol self' = current_symbol self) \<and>
         visited (length (symbols self)) self = rotate (Suc (cursor self)) (symbols self) \<and>
         (\<exists>self'. toggle_symbol self = (None, self') \<and> ctr self' = 0)"
proof -
  let ?xs = "symbols self"
  from ticks_rotating [OF assms, of "k * length ?xs"] obtain s where
    s: "ticks (k * length ?xs) self = (None, s)" "rotating s" "symbols s = ?xs" and
    "cursor s = (cursor self + k * length ?xs) mod length ?xs"
    by blast
  moreover from assms have "cursor self < length ?xs"
    by (simp add: cursor_def rotating_def)
  ultimately have "cursor s = cursor self"
    by simp
  with s assms have "current_symbol s = current_symbol self"
    by (simp add: rotating_def)
  with s have first: "\<exists>self'. ticks (k * length ?xs) self = (None, self') \<and> rotating self' \<and>
      current_symbol self' = current_symbol self"
    by blast
  have second: "visited (length ?xs) self = rotate (Suc (cursor self)) ?xs"
    by (rule nth_equalityI)
      (simp_all add: visited_rotating [OF assms] nth_rotate add.commute del: rotate_Suc)
  from toggle_symbol_rotating [OF assms] have third:
    "\<exists>self'. toggle_symbol self = (None, self') \<and> ctr self' = 0"
    by blast
  from first second third show ?thesis
    by blast
qed

theorem rotation_is_cyclic_witness:
  "rotating started \<and>
   visited 2 started = [''ETH-USDT'', ''BTC-USDT''] \<and>
   current_symbol (snd (ticks 2 started)) = ''BTC-USDT'' \<and>
   ctr (snd (toggle_symbol started)) = 0"
proof -
  have c: "cursor started = 0" and l: "length (symbols started) = 2"
    and sy: "symbols started = [''BTC-USDT'', ''ETH-USDT'']"
    and cu: "current_symbol started = ''BTC-USDT''"
    by (simp_all add: cursor_def cycle_pos_def started_def)
  from rotation_is_cyclic [OF rotating_started, of 1] rotating_started
  show ?thesis
    by (auto simp: l c sy cu numeral_2_eq_2)
qed

section \<open>The store and its readers\<close>

lemma py_eq_JStr: "py_eq k (JStr s) \<longleftrightarrow> k = JStr s"
proof (cases k)
  case (JFloat f)
  then show ?thesis
    by (cases f) (simp_all add: num_of_json_def)
qed (simp_all add: num_of_json_def)

lemma py_eq_JStr_left: "py_eq (JStr s) k \<longleftrightarrow> k = JStr s"
  by (cases k) (auto simp: num_of_json_def)

lemma same_key_JStr: "same_key k (JStr s) \<longleftrightarrow> k = JStr s"
  by (auto simp: same_key_def py_eq_JStr)

lemma same_key_JStr_left: "same_key (JStr s) k \<longleftrightarrow> k = JStr s"
  by (auto simp: same_key_def py_eq_JStr_left)

lemma dict_get_set_JStr: "dict_get (dict_set d (JStr s) v) (JStr s) = Some v"
  by (induction d) (auto simp: same_key_JStr)

lemma dict_get_set_other:
  "k \<noteq> JStr s \<Longrightarrow> dict_get (dict_set d (JStr s) v) k = dict_get d k"
proof (induction d)
  case Nil
  then show ?case
    by (simp add: same_key_JStr_left)
next
  case (Cons a d)
  then show ?case
    by (cases a) (auto simp: same_key_JStr same_key_JStr_left)
qed

lemma map_fst_dict_set_JStr:
  "map fst (dict_set d (JStr s) v) =
     (if JStr s \<in> set (map fst d) then map fst d else map fst d @ [JStr s])"
  by (induction d) (force simp: same_key_JStr)+

lemma keys_dict_set_JStr:
  "fst ` set (dict_set d (JStr s) v) = insert (JStr s) (fst ` set d)"
proof -
  have "set (map fst (dict_set d (JStr s) v)) = insert (JStr s) (set (map fst d))"
    by (simp only: map_fst_dict_set_JStr) auto
  then show ?thesis
    by simp
qed

lemma handle_message_stores:
  assumes "loads message = Inr (JDict items)" and "''id'' \<notin> fst ` set items"
    and "ticker_record (JDict items) = Inr snap" and "map_of items ''s'' = Some (JStr sy)"
  shows "handle_message loads message self = (None, self\<lparr>data := dict_set (data self) (JStr sy) snap\<rparr>)"
  using assms by (simp add: handle_message_def getitem_JDict setitem_def)

text \<open>
  C6, as the code has it. \<^verbatim>\<open>handle_message\<close> stores the record under the frame's
  \<^verbatim>\<open>s\<close> as received; it is the readers that normalise. So a lookup for a symbol finds
  the record just stored exactly when the symbol, without hyphens and in upper case, is
  the text the frame carried; every other lookup is answered as before; and the keys of
  the store stay in normalised form as long as the frames carry normalised symbols.
\<close>

theorem ticker_is_stored_under_the_symbol_as_received:
  assumes "loads message = Inr (JDict items)" and "''id'' \<notin> fst ` set items"
    and "ticker_record (JDict items) = Inr snap" and "map_of items ''s'' = Some (JStr sy)"
  shows "\<exists>self'. handle_message loads message self = (None, self') \<and>
           fst ` set (data self') = insert (JStr sy) (fst ` set (data self)) \<and>
           (\<forall>name. is_ascii name \<longrightarrow>
              displayed name self' =
                (if upper (replace ''-'' '''' name) = sy then Some snap else displayed name self)) \<and>
           (normalized_key (JStr sy) \<and> list_all normalized_key (map fst (data self)) \<longrightarrow>
              list_all normalized_key (map fst (data self')))"
proof -
  let ?self' = "self\<lparr>data := dict_set (data self) (JStr sy) snap\<rparr>"
  have h: "handle_message loads message self = (None, ?self')"
    using assms by (rule handle_message_stores)
  have k: "fst ` set (data ?self') = insert (JStr sy) (fst ` set (data self))"
    by (simp add: keys_dict_set_JStr)
  have d: "displayed name ?self' =
      (if upper (replace ''-'' '''' name) = sy then Some snap else displayed name self)" for name
    by (simp add: displayed_def dict_get_set_JStr dict_get_set_other)
  have n: "list_all normalized_key (map fst (data ?self'))"
    if "normalized_key (JStr sy)" and "list_all normalized_key (map fst (data self))"
  proof -
    from that(2) have "\<forall>k \<in> fst ` set (data self). normalized_key k"
      by (simp add: list_all_iff)
    with that(1) have "\<forall>k \<in> fst ` set (data ?self'). normalized_key k"
      by (simp only: k) simp
    then show ?thesis
      by (simp add: list_all_iff)
  qed
  from h k d n show ?thesis
    by blast
qed

lemma loads_lower_case:
  \<open>json_loads ''{"s":"btc-usdt","c":"50000.00","P":"1.2345","v":"10","q":"500000"}'' =
     Inr (JDict [(''s'', JStr ''btc-usdt''), (''c'', JStr ''50000.00''), (''P'', JStr ''1.2345''),
                 (''v'', JStr ''10''), (''q'', JStr ''500000'')])\<close>
  by code_simp

lemma upper_example: "upper ''BTCUSDT'' = ''BTCUSDT''"
  by (simp add: upper_def upper_char_def)

lemma upper_example_lower: "upper ''btcusdt'' = ''BTCUSDT''"
  by (simp add: upper_def upper_char_def)

theorem ticker_is_stored_under_the_symbol_as_received_witness:
  \<open>handle_message json_loads
      ''{"s":"BTCUSDT","c":"50000.00","P":"1.2345","v":"10","q":"500000"}'' started =
     (None, started\<lparr>data :=
        [(JStr ''BTCUSDT'',
          \<lparr>change = ''1.2345'', price = JStr ''50000.00'', vol = JStr ''10'',
           symbol = JStr ''BTCUSDT'', quote = JStr ''500000''\<rparr>)]\<rparr>) \<and>
   displayed ''BTC-USDT''
      (snd (handle_message json_loads
         ''{"s":"BTCUSDT","c":"50000.00","P":"1.2345","v":"10","q":"500000"}'' started)) =
     Some \<lparr>change = ''1.2345'', price = JStr ''50000.00'', vol = JStr ''10'',
           symbol = JStr ''BTCUSDT'', quote = JStr ''500000''\<rparr>\<close>
proof -
  let ?snap = "\<lparr>change = ''1.2345'', price = JStr ''50000.00'', vol = JStr ''10'',
                 symbol = JStr ''BTCUSDT'', quote = JStr ''500000''\<rparr>"
  have r: "ticker_record (JDict [(''s'', JStr ''BTCUSDT''), (''c'', JStr ''50000.00''),
      (''P'', JStr ''1.2345''), (''v'', JStr ''10''), (''q'', JStr ''500000'')]) = Inr ?snap"
    by (simp add: ticker_record_def getitem_JDict Decimal_example format_example)
  have a: "is_ascii ''BTC-USDT''"
    by (simp add: is_ascii_def)
  from ticker_is_stored_under_the_symbol_as_received
    [where loads = json_loads and self = started and sy = "''BTCUSDT''", OF loads_ticker _ r]
  obtain self' where
    h: "handle_message json_loads
          ''{\"s\":\"BTCUSDT\",\"c\":\"50000.00\",\"P\":\"1.2345\",\"v\":\"10\",\"q\":\"500000\"}''
          started = (None, self')" and
    d: "\<forall>name. is_ascii name \<longrightarrow> displayed name self' =
          (if upper (replace ''-'' '''' name) = ''BTCUSDT'' then Some ?snap else displayed name started)"
    by auto
  from d a have "displayed ''BTC-USDT'' self' = Some ?snap"
    by (simp add: upper_example)
  moreover have "handle_message json_loads
          ''{\"s\":\"BTCUSDT\",\"c\":\"50000.00\",\"P\":\"1.2345\",\"v\":\"10\",\"q\":\"500000\"}''
          started = (None, started\<lparr>data := [(JStr ''BTCUSDT'', ?snap)]\<rparr>)"
    using handle_message_stores [where loads = json_loads and self = started, OF loads_ticker _ r]
    by (simp add: started_def)
  ultimately show ?thesis
    using h by simp
qed

theorem store_key_is_not_normalised_counterexample:
  \<open>map fst (data (snd (handle_message json_loads
      ''{"s":"btc-usdt","c":"50000.00","P":"1.2345","v":"10","q":"500000"}'' started))) =
     [JStr ''btc-usdt''] \<and>
   \<not> normalized_key (JStr ''btc-usdt'') \<and>
   displayed ''btc-usdt''
     (snd (handle_message json_loads
        ''{"s":"btc-usdt","c":"50000.00","P":"1.2345","v":"10","q":"500000"}'' started)) = None\<close>
proof -
  let ?snap = "\<lparr>change = ''1.2345'', price = JStr ''50000.00'', vol = JStr ''10'',
                 symbol = JStr ''btc-usdt'', quote = JStr ''500000''\<rparr>"
  have r: "ticker_record (JDict [(''s'', JStr ''btc-usdt''), (''c'', JStr ''50000.00''),
      (''P'', JStr ''1.2345''), (''v'', JStr ''10''), (''q'', JStr ''500000'')]) = Inr ?snap"
    by (simp add: ticker_record_def getitem_JDict Decimal_example format_example)
  have "handle_message json_loads
          ''{\"s\":\"btc-usdt\",\"c\":\"50000.00\",\"P\":\"1.2345\",\"v\":\"10\",\"q\":\"500000\"}''
          started = (None, started\<lparr>data := [(JStr ''btc-usdt'', ?snap)]\<rparr>)"
    using handle_message_stores [where loads = json_loads and self = started, OF loads_lower_case _ r]
    by (simp add: started_def)
  then show ?thesis
    by (simp add: normalized_key_def displayed_def upper_example_lower same_key_JStr)
qed

section \<open>The percent change is rounded to four places\<close>

lemma digit_char_props:
  assumes "d < 10"
  shows "is_digit (digit_char d)" and "digit_val (digit_char d) = d"
proof -
  from assms have "d \<in> {0, 1, 2, 3, 4, 5, 6, 7, 8, 9}"
    by auto
  then show "is_digit (digit_char d)" and "digit_val (digit_char d) = d"
    by (auto simp: digit_char_def is_digit_def digit_val_def)
qed

lemma str_nat_digits: "list_all is_digit (str_nat n) \<and> str_nat n \<noteq> []"
proof (induction n rule: str_nat.induct)
  case (1 n)
  show ?case
  proof (cases "n < 10")
    case True
    then show ?thesis
      by (subst (1 2) str_nat.simps) (simp add: digit_char_props)
  next
    case False
    with "1.IH" show ?thesis
      by (subst (1 2) str_nat.simps) (simp add: digit_char_props)
  qed
qed

lemma nat_of_digits_snoc: "nat_of_digits (ds @ [c]) = 10 * nat_of_digits ds + digit_val c"
  by (simp add: nat_of_digits_def)

lemma nat_of_digits_str_nat: "nat_of_digits (str_nat n) = n"
proof (induction n rule: str_nat.induct)
  case (1 n)
  show ?case
  proof (cases "n < 10")
    case True
    then show ?thesis
      by (subst str_nat.simps) (simp add: nat_of_digits_def digit_char_props)
  next
    case False
    with "1.IH" show ?thesis
      by (subst str_nat.simps) (simp add: nat_of_digits_snoc digit_char_props)
  qed
qed

lemma foldl_digits_zeros:
  "foldl (\<lambda>a c. 10 * a + digit_val c) 0 (replicate k (CHR ''0'')) = 0"
  by (induction k) (simp_all add: digit_val_def)

lemma nat_of_digits_zeros: "nat_of_digits (replicate k (CHR ''0'') @ ds) = nat_of_digits ds"
  by (simp add: nat_of_digits_def foldl_digits_zeros)

text \<open>A number written with \<open>k\<close> digits has at most \<open>k\<close> digits when printed.\<close>

lemma nat_of_digits_bound:
  assumes "list_all is_digit ds"
  shows "nat_of_digits ds < 10 ^ length ds"
  using assms
proof (induction ds rule: rev_induct)
  case Nil
  show ?case by (simp add: nat_of_digits_def)
next
  case (snoc c ds)
  from snoc.prems have "is_digit c"
    by simp
  then have "digit_val c \<le> 9"
    unfolding is_digit_def digit_val_def Let_def by linarith
  moreover from snoc have "nat_of_digits ds < 10 ^ length ds"
    by simp
  ultimately show ?case
    by (simp add: nat_of_digits_snoc)
qed

lemma str_nat_length:
  assumes "n < 10 ^ k" and "0 < k"
  shows "length (str_nat n) \<le> k"
  using assms
proof (induction n arbitrary: k rule: str_nat.induct)
  case (1 n)
  show ?case
  proof (cases "n < 10")
    case True
    with "1.prems" show ?thesis
      by (subst str_nat.simps) simp
  next
    case False
    with "1.prems" obtain j where k: "k = Suc j" and j: "0 < j"
      by (cases k; cases "k - 1") auto
    from "1.prems"(1) have "n div 10 < 10 ^ j"
      unfolding k by (simp add: less_mult_imp_div_less mult.commute)
    with False j have "length (str_nat (n div 10)) \<le> j"
      by (intro "1.IH") simp_all
    with False show ?thesis
      unfolding k by (subst str_nat.simps) simp
  qed
qed

lemma str_nat_of_digits_length:
  assumes "list_all is_digit ds" and "ds \<noteq> []"
  shows "length (str_nat (nat_of_digits ds)) \<le> length ds"
  using nat_of_digits_bound [OF assms(1)] assms(2)
  by (intro str_nat_length) simp_all

text \<open>
  \<^verbatim>\<open>Decimal\<close> reads a plain numeral, an optional minus sign, digits, a point and
  digits, as the number it writes.
\<close>

lemma digit_not_space: "is_digit c \<Longrightarrow> \<not> is_space c"
  by (auto simp: is_digit_def is_space_def Let_def)

lemma digit_plain:
  assumes "is_digit c"
  shows "c \<noteq> CHR ''_''" and "c \<noteq> CHR ''-''" and "c \<noteq> CHR ''+''" and "c \<noteq> CHR ''.''"
    and "c \<noteq> CHR ''i''" and "c \<noteq> CHR ''n''" and "c \<noteq> CHR ''s''"
  using assms by (auto simp: is_digit_def)

lemma lower_char_digit:
  assumes "is_digit c"
  shows "lower_char c = c"
proof -
  have "c \<notin> set ''ABCDEFGHIJKLMNOPQRSTUVWXYZ''"
    using assms by (auto simp: is_digit_def)
  then show ?thesis
    by (simp add: lower_char_def)
qed

lemma strip_plain:
  assumes "s \<noteq> []" and "\<not> is_space (hd s)" and "\<not> is_space (last s)"
  shows "strip s = s"
proof -
  from assms(1,2) have 1: "dropWhile is_space s = s"
    by (cases s) simp_all
  from assms(1,3) have 2: "dropWhile is_space (rev s) = rev s"
    by (cases "rev s") (simp_all add: hd_rev [symmetric] del: hd_rev)
  show ?thesis
    by (simp add: strip_def 1 2)
qed

lemma decimal_of_digits:
  assumes "ip \<noteq> []" and "list_all is_digit ip" and "list_all is_digit fp"
    and "length ip + length fp \<le> MPD_MAX_PREC"
  shows "decimal_of_string ((if sg then ''-'' else '''') @ ip @ ''.'' @ fp) =
           Inr (DFinite sg (nat_of_digits (ip @ fp)) (- int (length fp)))"
proof -
  let ?r = "ip @ CHR ''.'' # fp"
  let ?s = "(if sg then ''-'' else '''') @ ?r"
  from assms(1) obtain d ip' where ip: "ip = d # ip'"
    by (cases ip) auto
  from assms(2) have di: "\<And>x. x \<in> set ip \<Longrightarrow> is_digit x"
    by (simp add: list_all_iff)
  from assms(3) have df: "\<And>x. x \<in> set fp \<Longrightarrow> is_digit x"
    by (simp add: list_all_iff)
  have d: "is_digit d"
    using di by (simp add: ip)
  have sp: "\<not> is_space (CHR ''-'')" "\<not> is_space (CHR ''.'')"
    by (simp_all add: is_space_def)
  have nd: "\<not> is_digit (CHR ''.'')"
    by (simp add: is_digit_def)
  have "\<not> is_space (last ?s)"
  proof (cases fp rule: rev_cases)
    case Nil
    then show ?thesis
      using sp by simp
  next
    case (snoc fp' c)
    then have "is_digit c"
      using df by simp
    then show ?thesis
      using snoc by (simp add: digit_not_space)
  qed
  moreover have "\<not> is_space (hd ?s)"
    using sp d by (simp add: ip digit_not_space)
  ultimately have 1: "strip ?s = ?s"
    by (intro strip_plain) simp_all
  have nu: "\<not> is_digit (CHR ''_'')"
    by (simp add: is_digit_def)
  have "\<And>x. x \<in> set ?s \<Longrightarrow> x \<noteq> CHR ''_''"
    using di df nu by (auto split: if_splits)
  then have 2: "filter (\<lambda>c. c \<noteq> CHR ''_'') ?s = ?s"
    by (simp only: filter_id_conv) blast
  have 3: "(case ?s of
              [] \<Rightarrow> (False, [])
            | c # t \<Rightarrow> if c = CHR ''-'' then (True, t) else if c = CHR ''+'' then (False, t) else (False, ?s)) =
           (sg, ?r)"
    using digit_plain(2,3) [OF d] by (simp add: ip)
  have hd: "map lower_char ?r = d # map lower_char (ip' @ CHR ''.'' # fp)"
    using lower_char_digit [OF d] by (simp add: ip)
  have 4: "map lower_char ?r \<noteq> ''inf''" "map lower_char ?r \<noteq> ''infinity''"
    "take 3 (map lower_char ?r) \<noteq> ''nan''" "take 4 (map lower_char ?r) \<noteq> ''snan''"
    using digit_plain(5,6,7) [OF d] unfolding hd by simp_all
  have 5: "takeWhile is_digit ?r = ip" "dropWhile is_digit ?r = CHR ''.'' # fp"
    using di nd by (simp_all add: takeWhile_append2 dropWhile_append2)
  have 6: "takeWhile is_digit fp = fp" "dropWhile is_digit fp = []"
    using df by simp_all
  have 7: "decimal_exponent [] = Some 0"
    by (simp add: decimal_exponent_def)
  have "list_all is_digit (ip @ fp)" and "ip @ fp \<noteq> []"
    using assms(1-3) by simp_all
  then have "length (str_nat (nat_of_digits (ip @ fp))) \<le> length ip + length fp"
    using str_nat_of_digits_length [of "ip @ fp"] by simp
  with assms(4) have 8: "finite_decimal sg (nat_of_digits (ip @ fp)) (- int (length fp)) =
      Inr (DFinite sg (nat_of_digits (ip @ fp)) (- int (length fp)))"
    by (simp add: finite_decimal_def Let_def MPD_MAX_PREC_def MPD_MAX_EMAX_def MPD_MIN_ETINY_def)
  have 9: "\<not> MPD_MAX_PREC < length fp"
    using assms(4) by simp
  have "decimal_of_string ?s = finite_decimal sg (nat_of_digits (ip @ fp)) (- int (length fp))"
    unfolding decimal_of_string_def 1 2 Let_def 3 prod.case
    using 4 assms(1) 9 by (simp add: 5 6 7)
  then show ?thesis
    by (simp add: 8)
qed

text \<open>The text \<^verbatim>\<open>format\<close> returns reads back as the rescaled coefficient.\<close>

lemma fixed4_read:
  assumes "ip \<noteq> []" and "list_all is_digit ip" and "length fp = 4" and "list_all is_digit fp"
  shows "fixed4_value ((if sg then ''-'' else '''') @ ip @ ''.'' @ fp) = Some (sg, nat_of_digits (ip @ fp))"
proof -
  have nd: "\<not> is_digit (CHR ''.'')" and nm: "\<not> is_digit (CHR ''-'')"
    by (simp_all add: is_digit_def)
  from assms(2) have all: "\<And>x. x \<in> set ip \<Longrightarrow> is_digit x"
    by (simp add: list_all_iff)
  have tw: "takeWhile is_digit (ip @ CHR ''.'' # fp) = ip"
    using all nd by (simp add: takeWhile_append2)
  have dw: "dropWhile is_digit (ip @ CHR ''.'' # fp) = CHR ''.'' # fp"
    using all nd by (simp add: dropWhile_append2)
  from assms(1) obtain d ip' where ip: "ip = d # ip'"
    by (cases ip) auto
  with all nm have d: "d \<noteq> CHR ''-''"
    by auto
  show ?thesis
  proof (cases sg)
    case True
    then show ?thesis
      using tw dw assms by (simp add: fixed4_value_def)
  next
    case False
    have "fixed4_value (d # ip' @ CHR ''.'' # fp) = Some (False, nat_of_digits (ip @ fp))"
      using tw dw assms d unfolding ip by (simp add: fixed4_value_def)
    with False show ?thesis
      by (simp add: ip)
  qed
qed

lemma fixed4_format:
  assumes "format_4f (DFinite sg c e) = Inr t"
  shows "fixed4_value t = Some (sg, rescale4 c e)"
proof -
  let ?ds = "str_nat (rescale4 c e)"
  let ?n = "length ?ds"
  let ?ip = "if ?n \<le> 4 then ''0'' else take (?n - 4) ?ds"
  let ?fp = "if ?n < 4 then replicate (4 - ?n) (CHR ''0'') @ ?ds else drop (?n - 4) ?ds"
  have dg: "list_all is_digit ?ds" and ne: "?ds \<noteq> []"
    using str_nat_digits [of "rescale4 c e"] by simp_all
  have z: "is_digit (CHR ''0'')"
    by (simp add: is_digit_def)
  from dg have all: "\<And>x. x \<in> set ?ds \<Longrightarrow> is_digit x"
    by (simp add: list_all_iff)
  have 1: "?ip \<noteq> []"
    using ne by auto
  have 2: "list_all is_digit ?ip"
    using all z by (auto simp: list_all_iff dest: in_set_takeD)
  have 3: "length ?fp = 4"
    by auto
  have 4: "list_all is_digit ?fp"
    using all z by (auto simp: list_all_iff dest: in_set_dropD)
  have "nat_of_digits (?ip @ ?fp) = nat_of_digits ?ds"
  proof (cases "?n \<le> 4")
    case True
    then have "?ip @ ?fp = replicate (Suc (4 - ?n)) (CHR ''0'') @ ?ds"
      by auto
    then show ?thesis
      by (simp only: nat_of_digits_zeros)
  next
    case False
    then show ?thesis
      by simp
  qed
  then have 5: "nat_of_digits (?ip @ ?fp) = rescale4 c e"
    by (simp add: nat_of_digits_str_nat)
  from assms have "t = (if sg then ''-'' else '''') @ ?ip @ ''.'' @ ?fp"
    by (simp add: format_4f_def Let_def split: if_splits)
  with fixed4_read [OF 1 2 3 4, of sg] 5 show ?thesis
    by simp
qed

lemma format_4f_returns:
  assumes "length (str_nat c) + 4 \<le> MPD_MAX_PREC" and "e \<le> 0"
  shows "\<exists>t. format_4f (DFinite sg c e) = Inr t"
proof -
  from assms(2) have "nat (e + 4) \<le> 4"
    by simp
  with assms(1) have "\<not> MPD_MAX_PREC + 1 < length (str_nat c) + nat (e + 4)"
    by simp
  then show ?thesis
    by (simp add: format_4f_def Let_def)
qed

lemma round_half_even_nearest:
  assumes "0 < b"
  shows "nearest_even (round_half_even a b) a b"
proof -
  define q r where "q = a div b" and "r = a mod b"
  from assms have a: "int a = int q * int b + int r" and r: "r < b"
    by (simp_all add: q_def r_def flip: of_nat_mult of_nat_add)
  consider "b < 2 * r" | "2 * r = b" "odd q" | "2 * r = b" "even q" | "2 * r < b"
    by linarith
  then show ?thesis
  proof cases
    case 1
    then have "round_half_even a b = q + 1"
      by (simp add: round_half_even_def q_def r_def)
    moreover have "int (q + 1) * int b - int a = int b - int r"
      by (simp add: a algebra_simps)
    ultimately show ?thesis
      using 1 r by (simp add: nearest_even_def)
  next
    case 2
    then have "round_half_even a b = q + 1"
      by (simp add: round_half_even_def q_def r_def)
    moreover have "int (q + 1) * int b - int a = int b - int r"
      by (simp add: a algebra_simps)
    ultimately show ?thesis
      using 2 r by (simp add: nearest_even_def)
  next
    case 3
    then have "round_half_even a b = q"
      by (simp add: round_half_even_def q_def r_def)
    moreover have "int q * int b - int a = - int r"
      by (simp add: a)
    ultimately show ?thesis
      using 3 r by (simp add: nearest_even_def)
  next
    case 4
    then have "round_half_even a b = q"
      by (simp add: round_half_even_def q_def r_def)
    moreover have "int q * int b - int a = - int r"
      by (simp add: a)
    ultimately show ?thesis
      using 4 r by (simp add: nearest_even_def)
  qed
qed

lemma str_nat_bound: "n < 10 ^ length (str_nat n)"
  using nat_of_digits_bound [of "str_nat n"] str_nat_digits [of n]
  by (simp add: nat_of_digits_str_nat)

lemma str_nat_length_lower:
  assumes "10 ^ k \<le> n"
  shows "k < length (str_nat n)"
proof (rule ccontr)
  assume "\<not> k < length (str_nat n)"
  then have "(10::nat) ^ length (str_nat n) \<le> 10 ^ k"
    by (simp add: power_increasing)
  with str_nat_bound [of n] assms show False
    by simp
qed

lemma rescale4_nearest:
  "nearest_even (rescale4 c e) (c * 10 ^ nat (e + 4)) (10 ^ nat (- 4 - e))"
proof -
  consider "c = 0" | "c \<noteq> 0" "- 4 \<le> e"
    | "c \<noteq> 0" "\<not> - 4 \<le> e" "length (str_nat c) < nat (- 4 - e)"
    | "c \<noteq> 0" "\<not> - 4 \<le> e" "\<not> length (str_nat c) < nat (- 4 - e)"
    by blast
  then show ?thesis
  proof cases
    case 1
    then show ?thesis
      by (simp add: rescale4_def nearest_even_def)
  next
    case 2
    then show ?thesis
      by (simp add: rescale4_def nearest_even_def)
  next
    case 3
    then obtain j where j: "nat (- 4 - e) = Suc j" and l: "length (str_nat c) \<le> j"
      by (cases "nat (- 4 - e)") auto
    have "c < 10 ^ length (str_nat c)"
      by (rule str_nat_bound)
    also have "\<dots> \<le> 10 ^ j"
      using l by (simp add: power_increasing)
    finally have "2 * c < 10 ^ Suc j"
      by simp
    then have "int (2 * c) < int (10 ^ Suc j)"
      by (simp only: of_nat_less_iff)
    then have "2 * int c < 10 ^ Suc j"
      by simp
    then have "nearest_even 0 c (10 ^ Suc j)"
      by (simp add: nearest_even_def)
    moreover from 3 have "nat (e + 4) = 0" and "rescale4 c e = 0"
      by (simp_all add: rescale4_def)
    ultimately show ?thesis
      by (simp add: j)
  next
    case 4
    then have "nat (e + 4) = 0"
      by simp
    with 4 round_half_even_nearest [of "10 ^ nat (- 4 - e)" c] show ?thesis
      by (simp add: rescale4_def)
  qed
qed

text \<open>
  C7, as the code has it. Take a frame without \<^verbatim>\<open>id\<close> that has the five fields, with
  a string as its symbol and, as its percent change, a string that holds a plain
  numeral: an optional minus sign, digits, a point and digits (the form the exchange
  sends). Then \<^verbatim>\<open>handle_message\<close> returns normally, and every reader that asks for a
  symbol whose normal form is the frame's symbol finds a record whose price, volume and
  quote volume are the frame's values as \<^verbatim>\<open>json.loads\<close> delivered them, and whose
  change is fixed-point text with four decimal places and the sign of the numeral, the
  digits being the numeral in units of \<open>10\<^sup>-\<^sup>4\<close> rounded to the nearest integer, half-way
  cases to the even one. A percent change that is a JSON number is a binary float by the
  time it is converted, and it is the float's value that gets rounded.
\<close>

theorem ticker_round_trip:
  assumes "loads message = Inr (JDict items)" and "''id'' \<notin> fst ` set items"
    and "map_of items ''s'' = Some (JStr sy)"
    and "map_of items ''c'' = Some c" and "map_of items ''v'' = Some v"
    and "map_of items ''q'' = Some q"
    and "map_of items ''P'' = Some (JStr ((if sg then ''-'' else '''') @ ip @ ''.'' @ fp))"
    and "ip \<noteq> []" and "list_all is_digit ip" and "list_all is_digit fp"
    and "length ip + length fp + 4 \<le> MPD_MAX_PREC"
  shows "\<exists>self' snap n.
           handle_message loads message self = (None, self') \<and>
           (\<forall>name. is_ascii name \<and> upper (replace ''-'' '''' name) = sy \<longrightarrow>
              displayed name self' = Some snap) \<and>
           price snap = c \<and> vol snap = v \<and> quote snap = q \<and> symbol snap = JStr sy \<and>
           fixed4_value (change snap) = Some (sg, n) \<and>
           nearest_even n (nat_of_digits (ip @ fp) * 10 ^ (4 - length fp)) (10 ^ (length fp - 4))"
proof -
  let ?co = "nat_of_digits (ip @ fp)"
  let ?ex = "- int (length fp)"
  have D: "Decimal (JStr ((if sg then ''-'' else '''') @ ip @ ''.'' @ fp)) = Inr (DFinite sg ?co ?ex)"
    using assms(8-11) by (simp only: Decimal_def json.case) (rule decimal_of_digits, simp_all)
  have "list_all is_digit (ip @ fp)" and "ip @ fp \<noteq> []"
    using assms(8-10) by simp_all
  then have "length (str_nat ?co) \<le> length ip + length fp"
    using str_nat_of_digits_length [of "ip @ fp"] by simp
  with assms(11) have "length (str_nat ?co) + 4 \<le> MPD_MAX_PREC"
    by simp
  then obtain t where F: "format_4f (DFinite sg ?co ?ex) = Inr t"
    using format_4f_returns [of ?co ?ex sg] by auto
  let ?snap = "\<lparr>change = t, price = c, vol = v, symbol = JStr sy, quote = q\<rparr>"
  have r: "ticker_record (JDict items) = Inr ?snap"
    using assms(3-7) D F by (simp add: ticker_record_def getitem_JDict)
  let ?self' = "self\<lparr>data := dict_set (data self) (JStr sy) ?snap\<rparr>"
  have h: "handle_message loads message self = (None, ?self')"
    using assms(1,2) r assms(3) by (rule handle_message_stores)
  have g: "\<forall>name. is_ascii name \<and> upper (replace ''-'' '''' name) = sy \<longrightarrow>
      displayed name ?self' = Some ?snap"
    by (simp add: displayed_def dict_get_set_JStr)
  have f: "fixed4_value (change ?snap) = Some (sg, rescale4 ?co ?ex)"
    using fixed4_format [OF F] by simp
  have n: "nearest_even (rescale4 ?co ?ex) (?co * 10 ^ (4 - length fp)) (10 ^ (length fp - 4))"
  proof -
    have "nat (?ex + 4) = 4 - length fp" and "nat (- 4 - ?ex) = length fp - 4"
      by simp_all
    with rescale4_nearest [of ?co ?ex] show ?thesis
      by simp
  qed
  have "handle_message loads message self = (None, ?self') \<and>
        (\<forall>name. is_ascii name \<and> upper (replace ''-'' '''' name) = sy \<longrightarrow>
           displayed name ?self' = Some ?snap) \<and>
        price ?snap = c \<and> vol ?snap = v \<and> quote ?snap = q \<and> symbol ?snap = JStr sy \<and>
        fixed4_value (change ?snap) = Some (sg, rescale4 ?co ?ex) \<and>
        nearest_even (rescale4 ?co ?ex) (?co * 10 ^ (4 - length fp)) (10 ^ (length fp - 4))"
    using h g f n by simp
  then show ?thesis
    by (intro exI)
qed

lemma loads_rounding:
  \<open>json_loads ''{"s":"ETHUSDT","c":"3000.10","P":"-0.02555","v":"7.5","q":"22500.75"}'' =
     Inr (JDict [(''s'', JStr ''ETHUSDT''), (''c'', JStr ''3000.10''), (''P'', JStr ''-0.02555''),
                 (''v'', JStr ''7.5''), (''q'', JStr ''22500.75'')])\<close>
  by code_simp

lemma Decimal_rounding_example: "Decimal (JStr ''-0.02555'') = Inr (DFinite True 2555 (- 5))"
  by (simp add: Decimal_def decimal_of_string_def strip_def is_space_def is_digit_def
      lower_char_def decimal_exponent_def nat_of_digits_def digit_val_def finite_decimal_def
      MPD_MAX_PREC_def MPD_MAX_EMAX_def MPD_MIN_ETINY_def str_nat.simps)

lemma format_rounding_example: "format_4f (DFinite True 2555 (- 5)) = Inr ''-0.0256''"
  by (simp add: format_4f_def rescale4_def round_half_even_def str_nat.simps digit_char_def
      MPD_MAX_PREC_def)

lemma fixed4_example: "fixed4_value ''-0.0256'' = Some (True, 256)"
  by (simp add: fixed4_value_def is_digit_def nat_of_digits_def digit_val_def)

lemma upper_example_eth: "upper ''ETHUSDT'' = ''ETHUSDT''"
  by (simp add: upper_def upper_char_def)

theorem ticker_round_trip_witness:
  \<open>handle_message json_loads
      ''{"s":"ETHUSDT","c":"3000.10","P":"-0.02555","v":"7.5","q":"22500.75"}'' started =
     (None, started\<lparr>data :=
        [(JStr ''ETHUSDT'',
          \<lparr>change = ''-0.0256'', price = JStr ''3000.10'', vol = JStr ''7.5'',
           symbol = JStr ''ETHUSDT'', quote = JStr ''22500.75''\<rparr>)]\<rparr>) \<and>
   displayed ''ETH-USDT''
     (snd (handle_message json_loads
        ''{"s":"ETHUSDT","c":"3000.10","P":"-0.02555","v":"7.5","q":"22500.75"}'' started)) =
     Some \<lparr>change = ''-0.0256'', price = JStr ''3000.10'', vol = JStr ''7.5'',
           symbol = JStr ''ETHUSDT'', quote = JStr ''22500.75''\<rparr> \<and>
   fixed4_value ''-0.0256'' = Some (True, 256) \<and> nearest_even 256 2555 10\<close>
proof -
  let ?m = \<open>''{"s":"ETHUSDT","c":"3000.10","P":"-0.02555","v":"7.5","q":"22500.75"}''\<close>
  let ?snap = "\<lparr>change = ''-0.0256'', price = JStr ''3000.10'', vol = JStr ''7.5'',
                 symbol = JStr ''ETHUSDT'', quote = JStr ''22500.75''\<rparr>"
  have r: "ticker_record (JDict [(''s'', JStr ''ETHUSDT''), (''c'', JStr ''3000.10''),
      (''P'', JStr ''-0.02555''), (''v'', JStr ''7.5''), (''q'', JStr ''22500.75'')]) = Inr ?snap"
    by (simp add: ticker_record_def getitem_JDict Decimal_rounding_example format_rounding_example)
  have h: "handle_message json_loads ?m started = (None, started\<lparr>data := [(JStr ''ETHUSDT'', ?snap)]\<rparr>)"
    using handle_message_stores [where loads = json_loads and self = started, OF loads_rounding _ r]
    by (simp add: started_def)
  have d: "displayed ''ETH-USDT'' (started\<lparr>data := [(JStr ''ETHUSDT'', ?snap)]\<rparr>) = Some ?snap"
    by (simp add: displayed_def upper_example_eth same_key_JStr)
  have p: "''-0.02555'' = (if True then ''-'' else '''') @ ''0'' @ ''.'' @ ''02555''"
    by simp
  have "\<exists>self' snap n.
      handle_message json_loads ?m started = (None, self') \<and>
      (\<forall>name. is_ascii name \<and> upper (replace ''-'' '''' name) = ''ETHUSDT'' \<longrightarrow>
         displayed name self' = Some snap) \<and>
      price snap = JStr ''3000.10'' \<and> vol snap = JStr ''7.5'' \<and>
      quote snap = JStr ''22500.75'' \<and> symbol snap = JStr ''ETHUSDT'' \<and>
      fixed4_value (change snap) = Some (True, n) \<and>
      nearest_even n (nat_of_digits (''0'' @ ''02555'') * 10 ^ (4 - length ''02555''))
        (10 ^ (length ''02555'' - 4))"
    by (rule ticker_round_trip
          [where loads = json_loads and self = started and sg = True and ip = "''0''"
             and fp = "''02555''", OF loads_rounding])
       (simp_all add: is_digit_def MPD_MAX_PREC_def)
  then obtain self' snap n where
    "handle_message json_loads ?m started = (None, self')" and
    "fixed4_value (change snap) = Some (True, n)" and
    "\<forall>name. is_ascii name \<and> upper (replace ''-'' '''' name) = ''ETHUSDT'' \<longrightarrow>
         displayed name self' = Some snap" and
    "nearest_even n (nat_of_digits (''0'' @ ''02555'') * 10 ^ (4 - length ''02555''))
        (10 ^ (length ''02555'' - 4))"
    by blast
  with h d show ?thesis
    by (auto simp: fixed4_example nat_of_digits_def digit_val_def is_ascii_def upper_example_eth)
qed

text \<open>
  The text \<^verbatim>\<open>0.00015\<close> as a number: the nearest double is
  \<open>5534023222112865 \<cdot> 2\<^sup>-\<^sup>6\<^sup>5\<close>, a little less than \<open>0.00015\<close>.
\<close>

lemma bit_length_15: "bit_length 15 = 4"
  by (simp add: bit_length.simps)

lemma bit_length_100000: "bit_length 100000 = 17"
  by (simp add: bit_length.simps)

lemma round_example: "round_half_even 553402322211286548480 100000 = 5534023222112865"
  by (simp add: round_half_even_def)

lemma bit_length_mantissa: "bit_length 5534023222112865 = 53"
  by (simp add: bit_length.simps)

lemma float_example: "float_of_decimal False 15 (- 5) = FFinite False 5534023222112865 (- 65)"
  unfolding float_of_decimal_def
  by (simp add: bit_length_15 bit_length_100000 round_example bit_length_mantissa Let_def)

lemma loads_numeric_change:
  \<open>json_loads ''{"s":"ETHUSDT","c":"3000.10","P":0.00015,"v":"7.5","q":"22500.75"}'' =
     Inr (JDict [(''s'', JStr ''ETHUSDT''), (''c'', JStr ''3000.10''),
                 (''P'', JFloat (FFinite False 5534023222112865 (- 65))),
                 (''v'', JStr ''7.5''), (''q'', JStr ''22500.75'')])\<close>
  by (simp add: json_loads_def json_decode_def recursion_limit_def is_json_space_def
      scan_number_def scan_exponent_def is_digit_def nat_of_digits_def digit_val_def
      float_example Let_def)

lemma rescale_numeric: "rescale4 (5534023222112865 * 5 ^ 65) (- 65) = 1"
proof -
  have "(10::nat) ^ 60 \<le> 5534023222112865 * 5 ^ 65"
    by simp
  then have "60 < length (str_nat (5534023222112865 * 5 ^ 65))"
    by (rule str_nat_length_lower)
  then have "\<not> length (str_nat (5534023222112865 * 5 ^ 65)) < nat (- 4 - (- 65))"
    by simp
  moreover have "round_half_even (5534023222112865 * 5 ^ 65) (10 ^ nat (- 4 - (- 65))) = 1"
    by (simp add: round_half_even_def)
  ultimately show ?thesis
    unfolding rescale4_def by simp
qed

lemma str_nat_1: "str_nat 1 = ''1''"
  by (simp add: str_nat.simps digit_char_def)

lemma format_numeric_change:
  "format_4f (DFinite False (5534023222112865 * 5 ^ 65) (- 65)) = Inr ''0.0001''"
  unfolding format_4f_def decimal.case rescale_numeric str_nat_1
  by (simp add: numeral_3_eq_3)

text \<open>The same digits in a string are rounded as the decimal number they write.\<close>

lemma loads_string_change:
  \<open>json_loads ''{"s":"ETHUSDT","c":"3000.10","P":"0.00015","v":"7.5","q":"22500.75"}'' =
     Inr (JDict [(''s'', JStr ''ETHUSDT''), (''c'', JStr ''3000.10''), (''P'', JStr ''0.00015''),
                 (''v'', JStr ''7.5''), (''q'', JStr ''22500.75'')])\<close>
  by code_simp

lemma Decimal_tie_example: "Decimal (JStr ''0.00015'') = Inr (DFinite False 15 (- 5))"
  by (simp add: Decimal_def decimal_of_string_def strip_def is_space_def is_digit_def
      lower_char_def decimal_exponent_def nat_of_digits_def digit_val_def finite_decimal_def
      MPD_MAX_PREC_def MPD_MAX_EMAX_def MPD_MIN_ETINY_def str_nat.simps)

lemma format_tie_example: "format_4f (DFinite False 15 (- 5)) = Inr ''0.0002''"
  by (simp add: format_4f_def rescale4_def round_half_even_def str_nat.simps digit_char_def
      MPD_MAX_PREC_def numeral_3_eq_3)

theorem numeric_change_is_rounded_as_a_float_counterexample:
  \<open>handle_message json_loads
      ''{"s":"ETHUSDT","c":"3000.10","P":0.00015,"v":"7.5","q":"22500.75"}'' started =
     (None, started\<lparr>data :=
        [(JStr ''ETHUSDT'',
          \<lparr>change = ''0.0001'', price = JStr ''3000.10'', vol = JStr ''7.5'',
           symbol = JStr ''ETHUSDT'', quote = JStr ''22500.75''\<rparr>)]\<rparr>) \<and>
   fixed4_value ''0.0001'' = Some (False, 1) \<and>
   \<not> nearest_even 1 15 10 \<and> nearest_even 2 15 10 \<and>
   handle_message json_loads
      ''{"s":"ETHUSDT","c":"3000.10","P":"0.00015","v":"7.5","q":"22500.75"}'' started =
     (None, started\<lparr>data :=
        [(JStr ''ETHUSDT'',
          \<lparr>change = ''0.0002'', price = JStr ''3000.10'', vol = JStr ''7.5'',
           symbol = JStr ''ETHUSDT'', quote = JStr ''22500.75''\<rparr>)]\<rparr>)\<close>
proof -
  let ?snap = "\<lparr>change = ''0.0001'', price = JStr ''3000.10'', vol = JStr ''7.5'',
                 symbol = JStr ''ETHUSDT'', quote = JStr ''22500.75''\<rparr>"
  let ?snap2 = "\<lparr>change = ''0.0002'', price = JStr ''3000.10'', vol = JStr ''7.5'',
                 symbol = JStr ''ETHUSDT'', quote = JStr ''22500.75''\<rparr>"
  define co :: nat where "co = 5534023222112865 * 5 ^ 65"
  have D: "Decimal (JFloat (FFinite False 5534023222112865 (- 65))) = Inr (DFinite False co (- 65))"
    by (simp add: Decimal_def co_def)
  have F: "format_4f (DFinite False co (- 65)) = Inr ''0.0001''"
    unfolding co_def by (rule format_numeric_change)
  have r: "ticker_record (JDict [(''s'', JStr ''ETHUSDT''), (''c'', JStr ''3000.10''),
      (''P'', JFloat (FFinite False 5534023222112865 (- 65))),
      (''v'', JStr ''7.5''), (''q'', JStr ''22500.75'')]) = Inr ?snap"
    by (simp add: ticker_record_def getitem_JDict D F)
  have h: "handle_message json_loads
      ''{\"s\":\"ETHUSDT\",\"c\":\"3000.10\",\"P\":0.00015,\"v\":\"7.5\",\"q\":\"22500.75\"}'' started =
      (None, started\<lparr>data := [(JStr ''ETHUSDT'', ?snap)]\<rparr>)"
    using handle_message_stores [where loads = json_loads and self = started, OF loads_numeric_change _ r]
    by (simp add: started_def)
  have r2: "ticker_record (JDict [(''s'', JStr ''ETHUSDT''), (''c'', JStr ''3000.10''),
      (''P'', JStr ''0.00015''), (''v'', JStr ''7.5''), (''q'', JStr ''22500.75'')]) = Inr ?snap2"
    by (simp add: ticker_record_def getitem_JDict Decimal_tie_example format_tie_example)
  have h2: "handle_message json_loads
      ''{\"s\":\"ETHUSDT\",\"c\":\"3000.10\",\"P\":\"0.00015\",\"v\":\"7.5\",\"q\":\"22500.75\"}'' started =
      (None, started\<lparr>data := [(JStr ''ETHUSDT'', ?snap2)]\<rparr>)"
    using handle_message_stores [where loads = json_loads and self = started, OF loads_string_change _ r2]
    by (simp add: started_def)
  have f: "fixed4_value ''0.0001'' = Some (False, 1)"
    by (simp add: fixed4_value_def is_digit_def nat_of_digits_def digit_val_def)
  have n: "\<not> nearest_even 1 15 10" "nearest_even 2 15 10"
    by (simp_all add: nearest_even_def)
  from h h2 f n show ?thesis
    by simp
qed

section \<open>The subscription\<close>

lemma replace_char_filter: "replace [c] [] s = filter (\<lambda>x. x \<noteq> c) s"
  by (induction s) auto

lemma sends_append [simp]: "sends (xs @ ys) = sends xs @ sends ys"
  by (induction xs rule: sends.induct) simp_all

lemma net_events_append [simp]: "net_events (xs @ ys) = net_events xs @ net_events ys"
  by (induction xs rule: net_events.induct) simp_all

text \<open>
  Handling a message writes at most an error line, and a redraw presents at most one
  record: they leave the symbols, the rotation and everything sent or connected as
  they were.
\<close>

lemma same_net_refl: "same_net self self"
  by (simp add: same_net_def)

lemma same_net_trans: "same_net a b \<Longrightarrow> same_net b c \<Longrightarrow> same_net a c"
  by (auto simp: same_net_def)

lemma handle_message_same_net:
  assumes "handle_message loads m self = (r, self')"
  shows "same_net self self'"
  using assms
  by (auto simp: handle_message_def same_net_def connection_report_def
      split: sum.splits exn.splits bool.splits)

lemma update_console_same_net: "same_net self (update_console self)"
  by (simp add: update_console_def same_net_def split: option.splits)

lemma receive_same_net:
  assumes "receive loads ms self = (r, self')"
  shows "same_net self self'"
  using assms
proof (induction ms arbitrary: self)
  case Nil
  then show ?case by (simp add: same_net_refl)
next
  case (Cons m ms)
  obtain r1 s1 where h: "handle_message loads m self = (r1, s1)"
    by (cases "handle_message loads m self")
  note f = handle_message_same_net [OF h]
  show ?case
  proof (cases r1)
    case None
    with Cons.prems h have "receive loads ms s1 = (r, self')"
      by simp
    from f Cons.IH [OF this] show ?thesis
      by (rule same_net_trans)
  next
    case (Some e)
    with Cons.prems h f show ?thesis
      by auto
  qed
qed

lemma receive_console_same_net:
  assumes "receive_console loads ms self = (r, self')"
  shows "same_net self self'"
  using assms
proof (induction ms arbitrary: self)
  case Nil
  then show ?case by (simp add: same_net_refl)
next
  case (Cons m ms)
  obtain r1 s1 where h: "handle_message loads m self = (r1, s1)"
    by (cases "handle_message loads m self")
  note f = handle_message_same_net [OF h]
  show ?case
  proof (cases r1)
    case None
    with Cons.prems h have "receive_console loads ms (update_console s1) = (r, self')"
      by simp
    from Cons.IH [OF this] have "same_net (update_console s1) self'" .
    with f update_console_same_net [of s1] show ?thesis
      by (blast intro: same_net_trans)
  next
    case (Some e)
    with Cons.prems h f show ?thesis
      by auto
  qed
qed

text \<open>
  C3, as the code has it. The payload is the text
  \<^verbatim>\<open>{"method": "SUBSCRIBE", "params": [...], "id": 1}\<close>, with a space after each colon
  and after the commas between the members; the parameters are the configured symbols in
  their order, each with its hyphens removed and its letters as configured, in double
  quotes, followed by \<^verbatim>\<open>@ticker\<close> and joined by commas; the id is 1. In both programs a
  session that gets as far as sending sends this payload once, right after connecting
  (a log line apart).
\<close>

theorem subscribe_payload_is_the_symbols_without_hyphens:
  \<open>get_pairs_payload self =
     ''{"method": "SUBSCRIBE", "params": ['' @
       join '','' (map (\<lambda>name. ''"'' @ filter (\<lambda>c. c \<noteq> CHR ''-'') name @ ''@ticker"'') (symbols self)) @
     ''], "id": 1}'' \<and>
   take 3 (drop (length (out self)) (out (snd (session_body loads (Receives ms closing) self)))) =
     [Connect (endpoint self),
      LogInfo (''Subscribing with payload: '' @ get_pairs_payload self),
      Send (get_pairs_payload self)] \<and>
   sends (out (snd (session_body loads (Receives ms closing) self))) =
     sends (out self) @ [get_pairs_payload self] \<and>
   sends (out (snd (session_body_console loads (Receives ms closing) self))) =
     sends (out self) @ [get_pairs_payload self]\<close>
proof -
  let ?evs = "[Connect (endpoint self),
      LogInfo (''Subscribing with payload: '' @ get_pairs_payload self),
      Send (get_pairs_payload self)]"
  let ?s0 = "self\<lparr>out := out self @ ?evs\<rparr>"
  have p: \<open>get_pairs_payload self =
     ''{"method": "SUBSCRIBE", "params": ['' @
       join '','' (map (\<lambda>name. ''"'' @ filter (\<lambda>c. c \<noteq> CHR ''-'') name @ ''@ticker"'') (symbols self)) @
     ''], "id": 1}''\<close>
    by (simp add: get_pairs_payload_def replace_char_filter)
  obtain r s1 where rc: "receive loads ms ?s0 = (r, s1)"
    by (cases "receive loads ms ?s0")
  obtain r' s1' where rc': "receive_console loads ms ?s0 = (r', s1')"
    by (cases "receive_console loads ms ?s0")
  from receive_same_net [OF rc] obtain es where
    es: "out s1 = out self @ ?evs @ es" "sends es = []"
    by (auto simp: same_net_def)
  from receive_console_same_net [OF rc'] obtain es' where
    es': "out s1' = out self @ ?evs @ es'" "sends es' = []"
    by (auto simp: same_net_def)
  have b: "snd (session_body loads (Receives ms closing) self) = s1"
    using rc by (simp split: option.splits)
  have b': "snd (session_body_console loads (Receives ms closing) self) = s1'"
    using rc' by (simp split: option.splits)
  have 2: "take 3 (drop (length (out self)) (out s1)) = ?evs"
    by (simp add: es(1))
  have 3: "sends (out s1) = sends (out self) @ [get_pairs_payload self]"
    by (simp add: es)
  have 4: "sends (out s1') = sends (out self) @ [get_pairs_payload self]"
    by (simp add: es')
  from p 2 3 4 show ?thesis
    unfolding b b' by blast
qed

lemma payload_example:
  \<open>get_pairs_payload started =
     ''{"method": "SUBSCRIBE", "params": ["BTCUSDT@ticker","ETHUSDT@ticker"], "id": 1}''\<close>
  by (simp add: get_pairs_payload_def started_def)

lemma loads_payload:
  \<open>json_loads ''{"method": "SUBSCRIBE", "params": ["BTCUSDT@ticker","ETHUSDT@ticker"], "id": 1}'' =
     Inr (JDict [(''method'', JStr ''SUBSCRIBE''),
                 (''params'', JList [JStr ''BTCUSDT@ticker'', JStr ''ETHUSDT@ticker'']),
                 (''id'', JInt 1)])\<close>
  by code_simp

theorem subscribe_payload_keeps_case_counterexample:
  \<open>symbols started = [''BTC-USDT'', ''ETH-USDT''] \<and>
   get_pairs_payload started =
     ''{"method": "SUBSCRIBE", "params": ["BTCUSDT@ticker","ETHUSDT@ticker"], "id": 1}'' \<and>
   get_pairs_payload started \<noteq>
     ''{"method":"SUBSCRIBE","params":["btcusdt@ticker","ethusdt@ticker"],"id":1}'' \<and>
   json_loads (get_pairs_payload started) =
     Inr (JDict [(''method'', JStr ''SUBSCRIBE''),
                 (''params'', JList [JStr ''BTCUSDT@ticker'', JStr ''ETHUSDT@ticker'']),
                 (''id'', JInt 1)])\<close>
  by (simp add: payload_example loads_payload) (simp add: started_def)

section \<open>Connection failures\<close>

lemma receive_all_handled:
  assumes "\<forall>m \<in> set ms. \<forall>self. fst (handle_message loads m self) = None"
  shows "\<exists>s1. receive loads ms t = (None, s1)"
  using assms
proof (induction ms arbitrary: t)
  case Nil
  show ?case by simp
next
  case (Cons m ms)
  then have "fst (handle_message loads m t) = None"
    by simp
  then obtain t1 where "handle_message loads m t = (None, t1)"
    by (cases "handle_message loads m t") simp
  moreover from Cons.prems have "\<forall>m \<in> set ms. \<forall>self. fst (handle_message loads m self) = None"
    by simp
  from Cons.IH [OF this] obtain s1 where "receive loads ms t1 = (None, s1)"
    by blast
  ultimately show ?case
    by simp
qed

lemma receive_console_all_handled:
  assumes "\<forall>m \<in> set ms. \<forall>self. fst (handle_message loads m self) = None"
  shows "\<exists>s1. receive_console loads ms t = (None, s1)"
  using assms
proof (induction ms arbitrary: t)
  case Nil
  show ?case by simp
next
  case (Cons m ms)
  then have "fst (handle_message loads m t) = None"
    by simp
  then obtain t1 where "handle_message loads m t = (None, t1)"
    by (cases "handle_message loads m t") simp
  moreover from Cons.prems have "\<forall>m \<in> set ms. \<forall>self. fst (handle_message loads m self) = None"
    by simp
  from Cons.IH [OF this] obtain s1 where "receive_console loads ms (update_console t1) = (None, s1)"
    by blast
  ultimately show ?case
    by simp
qed

lemma session_body_fails:
  assumes "ending s = Some e"
    and "\<forall>m \<in> set (frames s). \<forall>self. fst (handle_message loads m self) = None"
  shows "\<exists>self'. session_body loads s self = (Some e, self') \<and>
           current_symbol self' = current_symbol self \<and>
           net_events (out self') = net_events (out self) @ [Connect (endpoint self)]"
proof (cases s)
  case (ConnectFails x)
  with assms(1) show ?thesis by simp
next
  case (SendFails x)
  with assms(1) show ?thesis by simp
next
  case (Receives ms closing)
  let ?s0 = "self\<lparr>out := out self @
      [Connect (endpoint self),
       LogInfo (''Subscribing with payload: '' @ get_pairs_payload self),
       Send (get_pairs_payload self)]\<rparr>"
  from assms(2) Receives have "\<forall>m \<in> set ms. \<forall>self. fst (handle_message loads m self) = None"
    by simp
  from receive_all_handled [OF this] obtain s1 where rc: "receive loads ms ?s0 = (None, s1)"
    by blast
  from receive_same_net [OF rc] have
    "current_symbol s1 = current_symbol self" and
    "net_events (out s1) = net_events (out self) @ [Connect (endpoint self)]"
    by (auto simp: same_net_def)
  with rc Receives assms(1) show ?thesis
    by simp
qed

lemma session_body_console_fails:
  assumes "ending s = Some e"
    and "\<forall>m \<in> set (frames s). \<forall>self. fst (handle_message loads m self) = None"
  shows "\<exists>self'. session_body_console loads s self = (Some e, self') \<and>
           net_events (out self') = net_events (out self) @ [Connect (endpoint self)]"
proof (cases s)
  case (ConnectFails x)
  with assms(1) show ?thesis by simp
next
  case (SendFails x)
  with assms(1) show ?thesis by simp
next
  case (Receives ms closing)
  let ?s0 = "self\<lparr>out := out self @
      [Connect (endpoint self),
       LogInfo (''Subscribing with payload: '' @ get_pairs_payload self),
       Send (get_pairs_payload self)]\<rparr>"
  from assms(2) Receives have "\<forall>m \<in> set ms. \<forall>self. fst (handle_message loads m self) = None"
    by simp
  from receive_console_all_handled [OF this] obtain s1 where
    rc: "receive_console loads ms ?s0 = (None, s1)"
    by blast
  from receive_console_same_net [OF rc] have
    "net_events (out s1) = net_events (out self) @ [Connect (endpoint self)]"
    by (auto simp: same_net_def)
  with rc Receives assms(1) show ?thesis
    by simp
qed

lemma connection_report_text: "connection_report (''WebSocket connection error: '' @ t)"
  by (simp add: connection_report_def)

text \<open>
  What one retried session leaves among the network events of \<^verbatim>\<open>socket-multiple.py\<close>:
  the connection attempt, the line that reports the error, and the sleep.
\<close>

lemma fetch_retries:
  assumes "\<forall>s \<in> set sessions. \<exists>e. ending s = Some e \<and> retried e"
    and "\<forall>s \<in> set sessions. \<forall>m \<in> set (frames s). \<forall>self. fst (handle_message loads m self) = None"
  shows "\<exists>self'. fetch_ticker_data loads (sessions @ rest) self = fetch_ticker_data loads rest self' \<and>
           current_symbol self' = current_symbol self \<and>
           net_events (out self') =
             net_events (out self) @
             concat (map (\<lambda>s. [Connect (endpoint self),
                                LogError (''WebSocket connection error: '' @ ending_text s @
                                          ''. Retrying in 5 seconds...''),
                                Sleep 5]) sessions)"
  using assms
proof (induction sessions arbitrary: self)
  case Nil
  show ?case by (rule exI [of _ self]) simp
next
  case (Cons s sessions)
  from Cons.prems(1) obtain e where e: "ending s = Some e" "retried e"
    by auto
  then have et: "ending_text s = exn_text e"
    by (simp add: ending_text_def)
  from Cons.prems(2) have "\<forall>m \<in> set (frames s). \<forall>self. fst (handle_message loads m self) = None"
    by simp
  from session_body_fails [OF e(1) this, of self] obtain s1 where
    b: "session_body loads s self = (Some e, s1)" and
    c: "current_symbol s1 = current_symbol self" and
    n: "net_events (out s1) = net_events (out self) @ [Connect (endpoint self)]"
    by blast
  let ?s2 = "s1\<lparr>out := out s1 @
      [LogError (''WebSocket connection error: '' @ exn_text e @ ''. Retrying in 5 seconds...''),
       Sleep 5]\<rparr>"
  have st: "fetch_ticker_data loads ((s # sessions) @ rest) self =
      fetch_ticker_data loads (sessions @ rest) ?s2"
    using b e(2) by simp
  have n2: "net_events (out ?s2) =
      net_events (out self) @
      [Connect (endpoint self),
       LogError (''WebSocket connection error: '' @ ending_text s @ ''. Retrying in 5 seconds...''),
       Sleep 5]"
    using connection_report_text [of "exn_text e @ ''. Retrying in 5 seconds...''"]
    by (simp add: n et)
  have ep: "endpoint ?s2 = endpoint self"
    using c by (simp add: endpoint_def)
  from Cons.prems have
    "\<forall>s \<in> set sessions. \<exists>e. ending s = Some e \<and> retried e" and
    "\<forall>s \<in> set sessions. \<forall>m \<in> set (frames s). \<forall>self. fst (handle_message loads m self) = None"
    by simp_all
  from Cons.IH [OF this, of ?s2] obtain s3 where
    1: "fetch_ticker_data loads (sessions @ rest) ?s2 = fetch_ticker_data loads rest s3" and
    2: "current_symbol s3 = current_symbol ?s2" and
    3: "net_events (out s3) = net_events (out ?s2) @
       concat (map (\<lambda>s. [Connect (endpoint ?s2),
                          LogError (''WebSocket connection error: '' @ ending_text s @
                                    ''. Retrying in 5 seconds...''),
                          Sleep 5]) sessions)"
    by blast
  have "fetch_ticker_data loads ((s # sessions) @ rest) self = fetch_ticker_data loads rest s3"
    using st 1 by simp
  moreover have "current_symbol s3 = current_symbol self"
    using 2 c by simp
  moreover have "net_events (out s3) =
      net_events (out self) @
      concat (map (\<lambda>s. [Connect (endpoint self),
                         LogError (''WebSocket connection error: '' @ ending_text s @
                                   ''. Retrying in 5 seconds...''),
                         Sleep 5]) (s # sessions))"
    unfolding 3 n2 ep by simp
  ultimately show ?case
    by blast
qed

text \<open>
  C2, as the code has it. In \<^verbatim>\<open>socket-multiple.py\<close> a session that ends with
  \<^verbatim>\<open>ConnectionClosed\<close> or a timeout is logged and followed by a sleep of 5 seconds and
  a new connection attempt, any number of times over, and the loop is still running
  afterwards; an \<^verbatim>\<open>InvalidURI\<close> is not retried: it leaves \<^verbatim>\<open>fetch_ticker_data\<close> as an
  exception, with nothing logged and no sleep. In \<^verbatim>\<open>socket-multiple-console-ui.py\<close>
  nothing is retried: a session that ends with any of the four exceptions its
  \<^verbatim>\<open>except\<close> clause names is logged and makes the program call \<^verbatim>\<open>sys.exit(1)\<close> after
  its one connection attempt.
\<close>

theorem closed_and_timed_out_sessions_are_retried:
  assumes "\<forall>s \<in> set sessions. \<exists>e. ending s = Some e \<and> retried e"
    and "\<forall>s \<in> set sessions. \<forall>m \<in> set (frames s). \<forall>self. fst (handle_message loads m self) = None"
    and "ending s = Some e" and "fatal_console e"
    and "\<forall>m \<in> set (frames s). \<forall>self. fst (handle_message loads m self) = None"
  shows "fst (fetch_ticker_data loads sessions self) = Pending \<and>
         net_events (out (snd (fetch_ticker_data loads sessions self))) =
           net_events (out self) @
           concat (map (\<lambda>s. [Connect (endpoint self),
                              LogError (''WebSocket connection error: '' @ ending_text s @
                                        ''. Retrying in 5 seconds...''),
                              Sleep 5]) sessions) \<and>
         fst (fetch_ticker_data loads (sessions @ ConnectFails (InvalidURI u) # later) self) =
           Raised (InvalidURI u) \<and>
         net_events (out (snd (fetch_ticker_data loads (sessions @ ConnectFails (InvalidURI u) # later) self))) =
           net_events (out (snd (fetch_ticker_data loads sessions self))) @ [Connect (endpoint self)] \<and>
         fst (fetch_ticker_data_console loads s self) = Raised (SystemExit 1) \<and>
         net_events (out (snd (fetch_ticker_data_console loads s self))) =
           net_events (out self) @
           [Connect (endpoint self),
            LogError (''WebSocket connection error: '' @ exn_text e @ ''. Unable to connect. Exiting...'')]"
proof -
  let ?evs = "concat (map (\<lambda>s. [Connect (endpoint self),
                              LogError (''WebSocket connection error: '' @ ending_text s @
                                        ''. Retrying in 5 seconds...''),
                              Sleep 5]) sessions)"
  from fetch_retries [OF assms(1,2), of "[]" self] obtain s1 where
    1: "fetch_ticker_data loads sessions self = (Pending, s1)" and
    n1: "net_events (out s1) = net_events (out self) @ ?evs"
    by auto
  from fetch_retries [OF assms(1,2), of "ConnectFails (InvalidURI u) # later" self] obtain s2 where
    f2: "fetch_ticker_data loads (sessions @ ConnectFails (InvalidURI u) # later) self =
           fetch_ticker_data loads (ConnectFails (InvalidURI u) # later) s2" and
    c2: "current_symbol s2 = current_symbol self" and
    n2: "net_events (out s2) = net_events (out self) @ ?evs"
    by blast
  have e2: "endpoint s2 = endpoint self"
    using c2 by (simp add: endpoint_def)
  have 2: "fetch_ticker_data loads (sessions @ ConnectFails (InvalidURI u) # later) self =
      (Raised (InvalidURI u), s2\<lparr>out := out s2 @ [Connect (endpoint self)]\<rparr>)"
    unfolding f2 by (simp add: retried_def e2)
  from session_body_console_fails [OF assms(3,5), of self] obtain s3 where
    b3: "session_body_console loads s self = (Some e, s3)" and
    n3: "net_events (out s3) = net_events (out self) @ [Connect (endpoint self)]"
    by blast
  have 3: "fetch_ticker_data_console loads s self =
      (Raised (SystemExit 1),
       s3\<lparr>out := out s3 @
         [LogError (''WebSocket connection error: '' @ exn_text e @ ''. Unable to connect. Exiting...'')]\<rparr>)"
    using b3 assms(4) by (simp add: fetch_ticker_data_console_def)
  show ?thesis
    using connection_report_text [of "exn_text e @ ''. Unable to connect. Exiting...''"]
    by (simp add: 1 n1 2 n2 3 n3)
qed

theorem closed_and_timed_out_sessions_are_retried_witness:
  \<open>fetch_ticker_data json_loads
     [ConnectFails (TimeoutError ''timed out''),
      Receives [''{"id":1,"result":null}''] (Some (ConnectionClosed ''no close frame received or sent''))]
     started =
   (Pending,
    started\<lparr>out :=
      [Connect ''wss://stream.binance.com:9443/ws/BTCUSDT@ticker'',
       LogError ''WebSocket connection error: timed out. Retrying in 5 seconds...'',
       Sleep 5,
       Connect ''wss://stream.binance.com:9443/ws/BTCUSDT@ticker'',
       LogInfo ''Subscribing with payload: {"method": "SUBSCRIBE", "params": ["BTCUSDT@ticker","ETHUSDT@ticker"], "id": 1}'',
       Send ''{"method": "SUBSCRIBE", "params": ["BTCUSDT@ticker","ETHUSDT@ticker"], "id": 1}'',
       LogError ''WebSocket connection error: no close frame received or sent. Retrying in 5 seconds...'',
       Sleep 5]\<rparr>) \<and>
   fetch_ticker_data_console json_loads (ConnectFails (OSError ''Connect call failed'')) started =
     (Raised (SystemExit 1),
      started\<lparr>out :=
        [Connect ''wss://stream.binance.com:9443/ws/BTCUSDT@ticker'',
         LogError ''WebSocket connection error: Connect call failed. Unable to connect. Exiting...'']\<rparr>)\<close>
proof -
  let ?ss = \<open>[ConnectFails (TimeoutError ''timed out''),
      Receives [''{"id":1,"result":null}''] (Some (ConnectionClosed ''no close frame received or sent''))]\<close>
  let ?c = "ConnectFails (OSError ''Connect call failed'')"
  have ack: \<open>handle_message json_loads ''{"id":1,"result":null}'' self = (None, self)\<close> for self
    by (simp add: handle_message_def loads_ack)
  have a1: "\<forall>s \<in> set ?ss. \<exists>e. ending s = Some e \<and> retried e"
    by (simp add: retried_def)
  have a2: "\<forall>s \<in> set ?ss. \<forall>m \<in> set (frames s). \<forall>self. fst (handle_message json_loads m self) = None"
    by (simp add: ack)
  have a3: "ending ?c = Some (OSError ''Connect call failed'')"
    by simp
  have a4: "fatal_console (OSError ''Connect call failed'')"
    by (simp add: fatal_console_def)
  have a5: "\<forall>m \<in> set (frames ?c). \<forall>self. fst (handle_message json_loads m self) = None"
    by simp
  have ev: "fetch_ticker_data json_loads ?ss started =
   (Pending,
    started\<lparr>out :=
      [Connect ''wss://stream.binance.com:9443/ws/BTCUSDT@ticker'',
       LogError ''WebSocket connection error: timed out. Retrying in 5 seconds...'',
       Sleep 5,
       Connect ''wss://stream.binance.com:9443/ws/BTCUSDT@ticker'',
       LogInfo (''Subscribing with payload: '' @ get_pairs_payload started),
       Send (get_pairs_payload started),
       LogError ''WebSocket connection error: no close frame received or sent. Retrying in 5 seconds...'',
       Sleep 5]\<rparr>)"
    by (simp add: ack retried_def exn_text_def endpoint_def get_pairs_payload_def started_def)
  have cv: "fetch_ticker_data_console json_loads ?c started =
     (Raised (SystemExit 1),
      started\<lparr>out :=
        [Connect ''wss://stream.binance.com:9443/ws/BTCUSDT@ticker'',
         LogError ''WebSocket connection error: Connect call failed. Unable to connect. Exiting...'']\<rparr>)"
    by (simp add: fetch_ticker_data_console_def fatal_console_def exn_text_def endpoint_def started_def)
  from closed_and_timed_out_sessions_are_retried [OF a1 a2 a3 a4 a5, of started]
  have "fst (fetch_ticker_data json_loads ?ss started) = Pending"
    and "fst (fetch_ticker_data_console json_loads ?c started) = Raised (SystemExit 1)"
    by simp_all
  with ev cv show ?thesis
    by (simp add: payload_example)
qed

theorem connection_failure_without_retry_counterexample:
  \<open>fetch_ticker_data_console json_loads
     (Receives [] (Some (ConnectionClosed ''no close frame received or sent''))) started =
   (Raised (SystemExit 1),
    started\<lparr>out :=
      [Connect ''wss://stream.binance.com:9443/ws/BTCUSDT@ticker'',
       LogInfo ''Subscribing with payload: {"method": "SUBSCRIBE", "params": ["BTCUSDT@ticker","ETHUSDT@ticker"], "id": 1}'',
       Send ''{"method": "SUBSCRIBE", "params": ["BTCUSDT@ticker","ETHUSDT@ticker"], "id": 1}'',
       LogError ''WebSocket connection error: no close frame received or sent. Unable to connect. Exiting...'']\<rparr>)\<close>
  by (simp add: fetch_ticker_data_console_def fatal_console_def exn_text_def endpoint_def
      started_def get_pairs_payload_def)

end
